theory Spec2Isabelle
  imports Main
begin

section \<open>Data model\<close>

text \<open>
  The six stages and the five stage statuses of the analysis pipeline, as the application
  component names them (\<open>AgentName.CONTENT_INGESTION\<close>, \<open>AgentStatus.RUNNING\<close>, ...).
\<close>

datatype AgentName =
  CONTENT_INGESTION | TEXTUAL_ANALYSIS | EMOTION_ANALYSIS
  | VISUAL_ANALYSIS | SOURCE_INTELLIGENCE | FINAL_SYNTHESIS

datatype AgentStatus = PENDING | RUNNING | COMPLETED | SKIPPED | ERROR

record StageEntry =
  status :: AgentStatus
  details :: "string option"

text \<open>One entry per stage: the pipeline state is a total map from stages to entries.\<close>

type_synonym PipelineState = "AgentName \<Rightarrow> StageEntry"

text \<open>A thrown JavaScript value: an \<open>Error\<close> with its message (or a rejection reason).\<close>

datatype exn = Error string

text \<open>
  A streamed response: the chunks it yields in order, then either its end (\<open>None\<close>) or the
  failure it throws after the last chunk.
\<close>

datatype chunkStream = Stream "string list" "exn option"

record File =
  file_name :: string

record ImageData =
  img_data :: string
  mimeType :: string

text \<open>
  Modelled from the spec: the output records of the analysis agents are declared in the
  types module, which is not part of the sources at hand; the fields are those of the data
  model (section 3) and those the orchestrator reads.
\<close>

datatype Finding = Positive | Negative | Neutral

datatype Level = Low | Medium | High

record IngestionOutput =
  ing_text :: string
  ing_images :: "string list"
  ing_domain :: string

record TextualAnalysisOutput =
  summary :: string
  sentiment :: Finding
  entities :: "string list"
  key_words :: "string list"

record EmotionAnalysisOutput =
  dominant_emotion :: string
  manipulation_level :: Level

record VisualAnalysisOutput =
  visual_insights :: "Level list"

record SourceIntelligenceOutput =
  trust_score :: int
  source_validity :: string
  source_validity_explanation :: string
  evidence :: "Finding list"

record AnalysisResults =
  ingestion :: "IngestionOutput option"
  textual :: "TextualAnalysisOutput option"
  emotion :: "EmotionAnalysisOutput option"
  visual :: "VisualAnalysisOutput option"
  source :: "SourceIntelligenceOutput option"

record MisinformationRecord =
  rec_domain :: string
  rec_url :: string
  trustScore :: int
  rec_timestamp :: int

record HistoryItem =
  item_id :: string
  item_url :: string
  item_report :: string
  item_timestamp :: string
  item_pipelineState :: PipelineState
  item_analysisResults :: AnalysisResults

datatype Role = User | Model

record ChatMessage =
  role :: Role
  content :: string

text \<open>
  Modelled from the spec: the chat session object comes from the model client, which is not
  part of the sources at hand. A session is started from exactly one grounding report; the
  messages relayed to it are recorded in the order they were sent.
\<close>

record Chat =
  grounding :: string
  sentMessages :: "string list"

definition startFollowUpChat :: "string \<Rightarrow> Chat" where
  "startFollowUpChat rep = \<lparr>grounding = rep, sentMessages = []\<rparr>"

text \<open>The argument of the visual agent: one uploaded image, or the frames of a video.\<close>

datatype VisualInput = SingleImage ImageData | Frames "ImageData list"

text \<open>
  The external collaborators of the component, each with the outcome of a call: \<open>Inl\<close> is
  the value it throws (or rejects with), \<open>Inr\<close> the value it returns.
  \<open>extractText\<close> stands for the defensive JSON extraction applied to the ingestion response
  (fenced block, brace span, raw fallback, then \<open>text?.trim() || ''\<close>), \<open>hostname\<close> for
  \<open>new URL(u).hostname\<close>, \<open>newDateISO\<close> for the two \<open>new Date().toISOString()\<close> readings
  (id, timestamp) of a finished run.
\<close>

record Collaborators =
  readAsDataURL :: "File \<Rightarrow> exn + ImageData"
  hostname :: "string \<Rightarrow> exn + string"
  getMisinformationRecordByDomain :: "string \<Rightarrow> exn + MisinformationRecord option"
  generateContent :: "string \<Rightarrow> exn + string"
  extractText :: "string \<Rightarrow> exn + string"
  performTextualAnalysis :: "string \<Rightarrow> exn + TextualAnalysisOutput"
  performEmotionAnalysis :: "string \<Rightarrow> exn + EmotionAnalysisOutput"
  extractFramesFromVideo :: "File \<Rightarrow> exn + ImageData list"
  performVisualAnalysis :: "VisualInput \<Rightarrow> exn + VisualAnalysisOutput"
  performSourceIntelligence :: "string \<Rightarrow> exn + SourceIntelligenceOutput"
  dateNow :: int
  generateFinalBrief :: "AnalysisResults \<Rightarrow> chunkStream"
  newDateISO :: "string \<times> string"
  getFriendlyErrorMessage :: "exn \<Rightarrow> string"
  generateComparisonBrief :: "HistoryItem list \<Rightarrow> chunkStream"
  sendMessageStream :: "Chat \<Rightarrow> string \<Rightarrow> exn + chunkStream"

text \<open>The submission handed to the pipeline by the input form.\<close>

record Submission =
  submittedUrl :: string
  imageFile :: "File option"
  videoFile :: "File option"
  textInput :: string

text \<open>The state hooks of the application component.\<close>

record App =
  url :: string
  isLoading :: bool
  pipelineState :: PipelineState
  analysisResults :: AnalysisResults
  finalReport :: "string option"
  error :: "string option"
  history :: "HistoryItem list"
  activeAnalysisId :: "string option"
  misinformationWarning :: "MisinformationRecord option"
  chatSession :: "Chat option"
  chatMessages :: "ChatMessage list"
  isChatLoading :: bool
  isCompareMode :: bool
  selectedHistoryIds :: "string list"
  isComparing :: bool
  comparisonReport :: "string option"
  showComparisonView :: bool

text \<open>
  The variables local to one run of the pipeline: the two accumulators the closure mutates,
  the report as shown so far and as accumulated, and two logs of what the run sent out: every
  pipeline state it published (oldest first) and every misinformation record it asked the
  memory to store.
\<close>

record RunLocals =
  currentPipelineState :: PipelineState
  currentAnalysisResults :: AnalysisResults
  published :: "PipelineState list"
  shownReport :: "string option"
  fullReport :: string
  memoryWrites :: "MisinformationRecord list"

section \<open>Constants and small helpers\<close>

text \<open>
  Modelled from the spec: the constants module is not part of the sources at hand; the
  pipeline state is initialised with all stages Pending at run start.
\<close>

definition INITIAL_PIPELINE_STATE :: PipelineState where
  "INITIAL_PIPELINE_STATE = (\<lambda>a. \<lparr>status = PENDING, details = None\<rparr>)"

definition MISINFORMATION_THRESHOLD :: int where
  "MISINFORMATION_THRESHOLD = 40"

definition emptyResults :: AnalysisResults where
  "emptyResults = \<lparr>ingestion = None, textual = None, emotion = None, visual = None,
     source = None\<rparr>"

text \<open>The stages in the order in which the entries of the pipeline state are enumerated.\<close>

definition agentOrder :: "AgentName list" where
  "agentOrder = [CONTENT_INGESTION, TEXTUAL_ANALYSIS, EMOTION_ANALYSIS, VISUAL_ANALYSIS,
     SOURCE_INTELLIGENCE, FINAL_SYNTHESIS]"

text \<open>The position of a stage in that order.\<close>

fun stageIndex :: "AgentName \<Rightarrow> nat" where
  "stageIndex CONTENT_INGESTION = 0"
| "stageIndex TEXTUAL_ANALYSIS = 1"
| "stageIndex EMOTION_ANALYSIS = 2"
| "stageIndex VISUAL_ANALYSIS = 3"
| "stageIndex SOURCE_INTELLIGENCE = 4"
| "stageIndex FINAL_SYNTHESIS = 5"

definition initialLocals :: RunLocals where
  "initialLocals = \<lparr>currentPipelineState = INITIAL_PIPELINE_STATE,
     currentAnalysisResults = emptyResults, published = [], shownReport = None,
     fullReport = [], memoryWrites = []\<rparr>"

definition updateAndTrackStatus ::
  "AgentName \<Rightarrow> AgentStatus \<Rightarrow> string option \<Rightarrow> RunLocals \<Rightarrow> RunLocals" where
  "updateAndTrackStatus agent st d s =
     (let ps = (currentPipelineState s)(agent := \<lparr>status = st, details = d\<rparr>)
      in s\<lparr>currentPipelineState := ps, published := published s @ [ps]\<rparr>)"

text \<open>
  Sequencing inside the try block: a step yields the value it throws, if any, and the locals
  as they are at that point; a throw skips everything after it.
\<close>

type_synonym step = "RunLocals \<Rightarrow> exn option \<times> RunLocals"

definition andThen :: "step \<Rightarrow> step \<Rightarrow> step" where
  "andThen f g s = (case fst (f s) of Some e \<Rightarrow> f s | None \<Rightarrow> g (snd (f s)))"

definition resetAnalysisState :: "App \<Rightarrow> App" where
  "resetAnalysisState st = st\<lparr>url := [], isLoading := False,
     pipelineState := INITIAL_PIPELINE_STATE, analysisResults := emptyResults,
     finalReport := None, error := None, activeAnalysisId := None, chatSession := None,
     chatMessages := [], isChatLoading := False, isCompareMode := False,
     selectedHistoryIds := [], isComparing := False, comparisonReport := None,
     showComparisonView := False\<rparr>"

definition handleClearHistory :: "bool \<Rightarrow> App \<Rightarrow> App" where
  "handleClearHistory confirmed st =
     (if confirmed then resetAnalysisState (st\<lparr>history := []\<rparr>) else st)"

section \<open>The pipeline orchestrator\<close>

definition ingestionStage :: "Collaborators \<Rightarrow> Submission \<Rightarrow> step" where
  "ingestionStage env inp s =
     (if submittedUrl inp \<noteq> [] then
        (let s1 = updateAndTrackStatus CONTENT_INGESTION RUNNING
                    (Some ''Ingesting content from URL...'') s
         in case generateContent env (submittedUrl inp) of
              Inl e \<Rightarrow> (Some e, s1)
            | Inr response \<Rightarrow>
               (case extractText env response of
                  Inl e \<Rightarrow> (Some e, s1)
                | Inr extractedText \<Rightarrow>
                   (case hostname env (submittedUrl inp) of
                      Inl e \<Rightarrow> (Some e, s1)
                    | Inr hostDomain \<Rightarrow>
                       (let s2 = s1\<lparr>currentAnalysisResults := (currentAnalysisResults s1)
                                   \<lparr>ingestion := Some \<lparr>ing_text = extractedText,
                                      ing_images = [], ing_domain = hostDomain\<rparr>\<rparr>\<rparr>
                        in (None, updateAndTrackStatus CONTENT_INGESTION COMPLETED
                              (Some (if extractedText \<noteq> [] then ''Text extracted''
                                     else ''No main text found'')) s2)))))
      else if textInput inp \<noteq> [] then
        (let s1 = updateAndTrackStatus CONTENT_INGESTION RUNNING
                    (Some ''Processing direct text...'') s;
             s2 = s1\<lparr>currentAnalysisResults := (currentAnalysisResults s1)
                    \<lparr>ingestion := Some \<lparr>ing_text = textInput inp, ing_images = [],
                       ing_domain = []\<rparr>\<rparr>\<rparr>
         in (None, updateAndTrackStatus CONTENT_INGESTION COMPLETED
                     (Some ''Text processed'') s2))
      else (None, updateAndTrackStatus CONTENT_INGESTION SKIPPED
                    (Some ''No URL or text provided'') s))"

text \<open>\<open>currentAnalysisResults.ingestion?.text\<close> and \<open>...ingestion?.domain\<close>.\<close>

definition ingestionText :: "RunLocals \<Rightarrow> string" where
  "ingestionText s = (case ingestion (currentAnalysisResults s) of
     None \<Rightarrow> [] | Some i \<Rightarrow> ing_text i)"

definition ingestionDomain :: "RunLocals \<Rightarrow> string" where
  "ingestionDomain s = (case ingestion (currentAnalysisResults s) of
     None \<Rightarrow> [] | Some i \<Rightarrow> ing_domain i)"

definition textualStage :: "Collaborators \<Rightarrow> step" where
  "textualStage env s =
     (if ingestionText s \<noteq> [] then
        (let s1 = updateAndTrackStatus TEXTUAL_ANALYSIS RUNNING (Some ''Analyzing text...'') s
         in case performTextualAnalysis env (ingestionText s) of
              Inl e \<Rightarrow> (Some e, s1)
            | Inr textualResult \<Rightarrow>
               (let s2 = s1\<lparr>currentAnalysisResults := (currentAnalysisResults s1)
                           \<lparr>textual := Some textualResult\<rparr>\<rparr>
                in (None, updateAndTrackStatus TEXTUAL_ANALYSIS COMPLETED
                            (Some ''Summary and entities extracted'') s2)))
      else (None, updateAndTrackStatus TEXTUAL_ANALYSIS SKIPPED
                    (Some ''No text to analyze'') s))"

definition emotionStage :: "Collaborators \<Rightarrow> step" where
  "emotionStage env s =
     (if ingestionText s \<noteq> [] then
        (let s1 = updateAndTrackStatus EMOTION_ANALYSIS RUNNING
                    (Some ''Analyzing emotional tone...'') s
         in case performEmotionAnalysis env (ingestionText s) of
              Inl e \<Rightarrow> (Some e, s1)
            | Inr emotionResult \<Rightarrow>
               (let s2 = s1\<lparr>currentAnalysisResults := (currentAnalysisResults s1)
                           \<lparr>emotion := Some emotionResult\<rparr>\<rparr>
                in (None, updateAndTrackStatus EMOTION_ANALYSIS COMPLETED
                            (Some (''Emotion: '' @ dominant_emotion emotionResult)) s2)))
      else (None, updateAndTrackStatus EMOTION_ANALYSIS SKIPPED
                    (Some ''No text to analyze'') s))"

definition visualStage ::
  "Collaborators \<Rightarrow> Submission \<Rightarrow> ImageData option \<Rightarrow> step" where
  "visualStage env inp imageData s =
     (case imageData of
        Some img \<Rightarrow>
          (let s1 = updateAndTrackStatus VISUAL_ANALYSIS RUNNING
                      (Some ''Analyzing uploaded image...'') s
           in case performVisualAnalysis env (SingleImage img) of
                Inl e \<Rightarrow> (Some e, s1)
              | Inr visualResult \<Rightarrow>
                 (let s2 = s1\<lparr>currentAnalysisResults := (currentAnalysisResults s1)
                             \<lparr>visual := Some visualResult\<rparr>\<rparr>
                  in (None, updateAndTrackStatus VISUAL_ANALYSIS COMPLETED
                              (Some ''Image analysis complete'') s2)))
      | None \<Rightarrow>
          (case videoFile inp of
             Some vid \<Rightarrow>
               (let s1 = updateAndTrackStatus VISUAL_ANALYSIS RUNNING
                           (Some ''Extracting frames from video...'') s
                in case extractFramesFromVideo env vid of
                     Inl e \<Rightarrow> (Some e, s1)
                   | Inr frames \<Rightarrow>
                      (let s2 = updateAndTrackStatus VISUAL_ANALYSIS RUNNING
                                  (Some ''Analyzing video frames...'') s1
                       in case performVisualAnalysis env (Frames frames) of
                            Inl e \<Rightarrow> (Some e, s2)
                          | Inr visualResult \<Rightarrow>
                             (let s3 = s2\<lparr>currentAnalysisResults :=
                                           (currentAnalysisResults s2)
                                           \<lparr>visual := Some visualResult\<rparr>\<rparr>
                              in (None, updateAndTrackStatus VISUAL_ANALYSIS COMPLETED
                                          (Some ''Video analysis complete'') s3))))
           | None \<Rightarrow> (None, updateAndTrackStatus VISUAL_ANALYSIS SKIPPED
                              (Some ''No visual media uploaded'') s)))"

text \<open>
  The write-back to the misinformation memory: the call is logged; a failure of the store
  is caught on the spot and changes nothing else.
\<close>

definition misinformationWriteBack ::
  "Collaborators \<Rightarrow> Submission \<Rightarrow> SourceIntelligenceOutput \<Rightarrow> RunLocals \<Rightarrow> RunLocals" where
  "misinformationWriteBack env inp sourceResult s =
     (if trust_score sourceResult < MISINFORMATION_THRESHOLD then
        s\<lparr>memoryWrites := memoryWrites s @
            [\<lparr>rec_domain = ingestionDomain s, rec_url = submittedUrl inp,
              trustScore = trust_score sourceResult, rec_timestamp = dateNow env\<rparr>]\<rparr>
      else s)"

definition sourceStage :: "Collaborators \<Rightarrow> Submission \<Rightarrow> step" where
  "sourceStage env inp s =
     (if ingestionDomain s \<noteq> [] then
        (let s1 = updateAndTrackStatus SOURCE_INTELLIGENCE RUNNING
                    (Some ''Verifying source credibility...'') s
         in case performSourceIntelligence env (ingestionDomain s) of
              Inl e \<Rightarrow> (Some e, s1)
            | Inr sourceResult \<Rightarrow>
               (let s2 = s1\<lparr>currentAnalysisResults := (currentAnalysisResults s1)
                           \<lparr>source := Some sourceResult\<rparr>\<rparr>;
                    s3 = updateAndTrackStatus SOURCE_INTELLIGENCE COMPLETED
                           (Some (''Credibility: '' @ source_validity sourceResult)) s2
                in (None, misinformationWriteBack env inp sourceResult s3)))
      else (None, updateAndTrackStatus SOURCE_INTELLIGENCE SKIPPED
                    (Some ''No domain to verify'') s))"

text \<open>The loop over the chunks of the final brief.\<close>

fun consumeReport :: "string list \<Rightarrow> RunLocals \<Rightarrow> RunLocals" where
  "consumeReport [] s = s"
| "consumeReport (chunk # rest) s =
     consumeReport rest
       (s\<lparr>fullReport := fullReport s @ chunk,
          shownReport := Some ((case shownReport s of None \<Rightarrow> [] | Some prev \<Rightarrow> prev)
                                @ chunk)\<rparr>)"

definition noDataError :: exn where
  "noDataError =
     Error ''No data available to generate a brief. Provide a URL, image, or text.''"

definition finalSynthesisStage :: "Collaborators \<Rightarrow> step" where
  "finalSynthesisStage env s =
     (if textual (currentAnalysisResults s) = None \<and> visual (currentAnalysisResults s) = None
      then (Some noDataError, s)
      else
        (let s1 = updateAndTrackStatus FINAL_SYNTHESIS RUNNING
                    (Some ''Generating final brief...'') s
         in case generateFinalBrief env (currentAnalysisResults s1) of
              Stream chunks failure \<Rightarrow>
                (let s2 = consumeReport chunks (s1\<lparr>fullReport := [], shownReport := Some []\<rparr>)
                 in case failure of
                      Some e \<Rightarrow> (Some e, s2)
                    | None \<Rightarrow> (None, updateAndTrackStatus FINAL_SYNTHESIS COMPLETED
                                       (Some ''Brief generated successfully'') s2))))"

text \<open>Stages one to five, in their fixed order, given the image data read beforehand.\<close>

definition stagesBeforeSynthesis ::
  "Collaborators \<Rightarrow> Submission \<Rightarrow> ImageData option \<Rightarrow> step" where
  "stagesBeforeSynthesis env inp imageData =
     andThen (ingestionStage env inp)
       (andThen (textualStage env)
          (andThen (emotionStage env)
             (andThen (visualStage env inp imageData) (sourceStage env inp))))"

definition imageReadError :: exn where
  "imageReadError = Error ''Failed to read image file.''"

text \<open>
  Reading the uploaded image, if there is one: whatever goes wrong there is rethrown as one
  fixed error.
\<close>

definition readImage :: "Collaborators \<Rightarrow> Submission \<Rightarrow> exn + ImageData option" where
  "readImage env inp =
     (case imageFile inp of
        None \<Rightarrow> Inr None
      | Some f \<Rightarrow> (case readAsDataURL env f of
                     Inl e \<Rightarrow> Inl imageReadError
                   | Inr img \<Rightarrow> Inr (Some img)))"

text \<open>The try block up to the final synthesis: the image, then stages one to five.\<close>

definition beforeSynthesis :: "Collaborators \<Rightarrow> Submission \<Rightarrow> exn option \<times> RunLocals" where
  "beforeSynthesis env inp =
     (case readImage env inp of
        Inl e \<Rightarrow> (Some e, initialLocals)
      | Inr imageData \<Rightarrow> stagesBeforeSynthesis env inp imageData initialLocals)"

text \<open>The body of the try block: all of the above, then the final synthesis.\<close>

definition tryBody :: "Collaborators \<Rightarrow> Submission \<Rightarrow> exn option \<times> RunLocals" where
  "tryBody env inp =
     (case fst (beforeSynthesis env inp) of
        Some e \<Rightarrow> beforeSynthesis env inp
      | None \<Rightarrow> finalSynthesisStage env (snd (beforeSynthesis env inp)))"

text \<open>
  The run reaches the final synthesis, nothing having been thrown before, with neither a
  textual nor a visual result: the condition under which the synthesis refuses to start.
\<close>

definition abortsForNoData :: "Collaborators \<Rightarrow> Submission \<Rightarrow> bool" where
  "abortsForNoData env inp =
     (fst (beforeSynthesis env inp) = None
      \<and> textual (currentAnalysisResults (snd (beforeSynthesis env inp))) = None
      \<and> visual (currentAnalysisResults (snd (beforeSynthesis env inp))) = None)"

text \<open>The catch block: the first stage found Running is the one blamed.\<close>

definition runningAgent :: "PipelineState \<Rightarrow> AgentName option" where
  "runningAgent ps = List.find (\<lambda>a. status (ps a) = RUNNING) agentOrder"

fun stageFailureMessage :: "AgentName \<Rightarrow> string \<Rightarrow> string" where
  "stageFailureMessage CONTENT_INGESTION m =
     ''Content Ingestion failed. Please check if the URL is correct and publicly accessible, or try a different source. Details: '' @ m"
| "stageFailureMessage TEXTUAL_ANALYSIS m =
     ''Textual Analysis failed. The content from the source might be malformed or empty. Details: '' @ m"
| "stageFailureMessage EMOTION_ANALYSIS m =
     ''Emotion Analysis failed. The model could not determine the emotional tone of the content. Details: '' @ m"
| "stageFailureMessage VISUAL_ANALYSIS m =
     ''Visual Analysis failed. The uploaded media might be corrupted or in an unsupported format. Details: '' @ m"
| "stageFailureMessage SOURCE_INTELLIGENCE m =
     ''Source Intelligence failed. The model could not verify the source's credibility, which can happen with new or obscure domains. Details: '' @ m"
| "stageFailureMessage FINAL_SYNTHESIS m =
     ''Final Synthesis failed. The model could not generate a brief from the collected data. Details: '' @ m"

definition catchBlock :: "Collaborators \<Rightarrow> exn \<Rightarrow> RunLocals \<Rightarrow> string \<times> RunLocals" where
  "catchBlock env e s =
     (let friendlyMessage = getFriendlyErrorMessage env e
      in case runningAgent (currentPipelineState s) of
           None \<Rightarrow> (''Pipeline failed: '' @ friendlyMessage, s)
         | Some failedAgentName \<Rightarrow>
             (stageFailureMessage failedAgentName friendlyMessage,
              updateAndTrackStatus failedAgentName ERROR (Some friendlyMessage) s))"

text \<open>
  One run of the pipeline on a non-empty submission: the error message shown to the user,
  if the run failed, and the locals at its end.
\<close>

definition runPipeline :: "Collaborators \<Rightarrow> Submission \<Rightarrow> string option \<times> RunLocals" where
  "runPipeline env inp =
     (case fst (tryBody env inp) of
        None \<Rightarrow> (None, snd (tryBody env inp))
      | Some e \<Rightarrow> (Some (fst (catchBlock env e (snd (tryBody env inp)))),
                   snd (catchBlock env e (snd (tryBody env inp)))))"

definition noInput :: "Submission \<Rightarrow> bool" where
  "noInput inp = (submittedUrl inp = [] \<and> imageFile inp = None \<and> videoFile inp = None
     \<and> textInput inp = [])"

text \<open>The label stored as \<open>url\<close>: the URL, or a descriptor of the other input.\<close>

definition inputLabel :: "Submission \<Rightarrow> string" where
  "inputLabel inp =
     (if submittedUrl inp \<noteq> [] then submittedUrl inp
      else if textInput inp \<noteq> [] then ''Direct Text Input''
      else (case imageFile inp of
              Some f \<Rightarrow> file_name f
            | None \<Rightarrow> (case videoFile inp of Some v \<Rightarrow> file_name v | None \<Rightarrow> [])))"

text \<open>The look-up in the misinformation memory before the run; any failure is swallowed.\<close>

definition lookupWarning :: "Collaborators \<Rightarrow> string \<Rightarrow> MisinformationRecord option" where
  "lookupWarning env u =
     (if u = [] then None
      else (case hostname env u of
              Inl e \<Rightarrow> None
            | Inr urlDomain \<Rightarrow>
               (case getMisinformationRecordByDomain env urlDomain of
                  Inl e \<Rightarrow> None
                | Inr r \<Rightarrow> r)))"

definition newHistoryItem :: "Collaborators \<Rightarrow> Submission \<Rightarrow> RunLocals \<Rightarrow> HistoryItem" where
  "newHistoryItem env inp s =
     \<lparr>item_id = fst (newDateISO env), item_url = inputLabel inp,
      item_report = fullReport s, item_timestamp = snd (newDateISO env),
      item_pipelineState = currentPipelineState s,
      item_analysisResults = currentAnalysisResults s\<rparr>"

definition chatGreeting :: ChatMessage where
  "chatGreeting = \<lparr>role = Model, content =
     ''I've generated the brief. What specific details would you like to explore?''\<rparr>"

definition handleRunPipeline :: "Collaborators \<Rightarrow> Submission \<Rightarrow> App \<Rightarrow> App" where
  "handleRunPipeline env inp st =
     (if noInput inp then st
      else
        (let st0 = (resetAnalysisState
                      (st\<lparr>misinformationWarning := lookupWarning env (submittedUrl inp)\<rparr>))
                   \<lparr>url := inputLabel inp\<rparr>;
             s = snd (runPipeline env inp);
             st1 = st0\<lparr>pipelineState := currentPipelineState s,
                       analysisResults := currentAnalysisResults s,
                       finalReport := shownReport s\<rparr>
         in case fst (runPipeline env inp) of
              Some userFacingError \<Rightarrow> st1\<lparr>error := Some userFacingError, isLoading := False\<rparr>
            | None \<Rightarrow>
                st1\<lparr>activeAnalysisId := Some (item_id (newHistoryItem env inp s)),
                    history := newHistoryItem env inp s # history st1,
                    chatSession := Some (startFollowUpChat (fullReport s)),
                    chatMessages := [chatGreeting],
                    isLoading := False\<rparr>))"

section \<open>The comparative synthesis flow\<close>

text \<open>The loop over the chunks of the comparison brief: each chunk is appended to the buffer.\<close>

fun consumeComparison :: "string list \<Rightarrow> string option \<Rightarrow> string option" where
  "consumeComparison [] buf = buf"
| "consumeComparison (chunk # rest) buf =
     consumeComparison rest (Some ((case buf of None \<Rightarrow> [] | Some prev \<Rightarrow> prev) @ chunk))"

text \<open>The history items whose id is among the selected ones, in the order of the history.\<close>

definition reportsToCompare :: "App \<Rightarrow> HistoryItem list" where
  "reportsToCompare st =
     filter (\<lambda>item. List.member (selectedHistoryIds st) (item_id item)) (history st)"

definition handleRunComparison :: "Collaborators \<Rightarrow> App \<Rightarrow> App" where
  "handleRunComparison env st =
     (if length (selectedHistoryIds st) < 2 then st
      else
        (let st1 = st\<lparr>isComparing := True, comparisonReport := Some [], error := None\<rparr>
         in case generateComparisonBrief env (reportsToCompare st) of
              Stream chunks failure \<Rightarrow>
                (let st2 = st1\<lparr>comparisonReport :=
                                consumeComparison chunks (comparisonReport st1)\<rparr>
                 in case failure of
                      None \<Rightarrow> st2\<lparr>showComparisonView := True, isCompareMode := False,
                                  isComparing := False\<rparr>
                    | Some e \<Rightarrow>
                        st2\<lparr>error := Some (''Comparison failed: ''
                                            @ getFriendlyErrorMessage env e),
                            isCompareMode := False, selectedHistoryIds := [],
                            isComparing := False\<rparr>)))"

section \<open>The follow-up chat session\<close>

text \<open>
  The update applied to the transcript for each chunk and in the catch block: the content
  of the last entry is replaced, provided there is a last entry and it is a model entry.
\<close>

definition setLastModelContent :: "string \<Rightarrow> ChatMessage list \<Rightarrow> ChatMessage list" where
  "setLastModelContent c ms =
     (if ms \<noteq> [] \<and> role (last ms) = Model then butlast ms @ [(last ms)\<lparr>content := c\<rparr>]
      else ms)"

text \<open>The loop over the chunks of the reply, with the reply accumulated so far.\<close>

fun streamReply :: "string list \<Rightarrow> string \<Rightarrow> ChatMessage list \<Rightarrow> ChatMessage list" where
  "streamReply [] modelResponse ms = ms"
| "streamReply (chunk # rest) modelResponse ms =
     streamReply rest (modelResponse @ chunk) (setLastModelContent (modelResponse @ chunk) ms)"

definition chatCatch :: "Collaborators \<Rightarrow> exn \<Rightarrow> ChatMessage list \<Rightarrow> ChatMessage list" where
  "chatCatch env e ms =
     setLastModelContent (''Sorry, an error occurred: '' @ getFriendlyErrorMessage env e) ms"

definition handleSendChatMessage :: "Collaborators \<Rightarrow> string \<Rightarrow> App \<Rightarrow> App" where
  "handleSendChatMessage env message st =
     (case chatSession st of
        None \<Rightarrow> st
      | Some session \<Rightarrow>
          if isChatLoading st then st
          else
            (let st1 = st\<lparr>isChatLoading := True,
                          chatMessages := chatMessages st @ [\<lparr>role = User, content = message\<rparr>],
                          chatSession :=
                            Some (session\<lparr>sentMessages := sentMessages session @ [message]\<rparr>)\<rparr>
             in case sendMessageStream env session message of
                  Inl e \<Rightarrow> st1\<lparr>chatMessages := chatCatch env e (chatMessages st1),
                               isChatLoading := False\<rparr>
                | Inr (Stream chunks failure) \<Rightarrow>
                    (let ms = streamReply chunks []
                                (chatMessages st1 @ [\<lparr>role = Model, content = []\<rparr>])
                     in case failure of
                          None \<Rightarrow> st1\<lparr>chatMessages := ms, isChatLoading := False\<rparr>
                        | Some e \<Rightarrow> st1\<lparr>chatMessages := chatCatch env e ms,
                                        isChatLoading := False\<rparr>)))"

text \<open>
  The same handler in two steps, as the handler of one render of the component. It reads
  \<open>chatSession\<close> and \<open>isChatLoading\<close> as they were when the component was rendered, while
  its updates apply to the state current when they are made. \<open>sendBegin\<close> is what it does
  up to the point where it awaits the stream: the guard, the loading flag, the user message,
  the call that starts the stream (logged in the session, which the render and the current
  state share). \<open>sendFinish\<close> is what it does with the stream from there on.
\<close>

definition sendGuard :: "App \<Rightarrow> bool" where
  "sendGuard rendered = (chatSession rendered = None \<or> isChatLoading rendered)"

definition sendBegin :: "App \<Rightarrow> string \<Rightarrow> App \<Rightarrow> App" where
  "sendBegin rendered message cur =
     (if sendGuard rendered then cur
      else cur\<lparr>isChatLoading := True,
               chatMessages := chatMessages cur @ [\<lparr>role = User, content = message\<rparr>],
               chatSession := map_option
                 (\<lambda>session. session\<lparr>sentMessages := sentMessages session @ [message]\<rparr>)
                 (chatSession cur)\<rparr>)"

definition sendFinish :: "Collaborators \<Rightarrow> App \<Rightarrow> string \<Rightarrow> App \<Rightarrow> App" where
  "sendFinish env rendered message cur =
     (case chatSession rendered of
        None \<Rightarrow> cur
      | Some session \<Rightarrow>
          if isChatLoading rendered then cur
          else
            (case sendMessageStream env session message of
               Inl e \<Rightarrow> cur\<lparr>chatMessages := chatCatch env e (chatMessages cur),
                            isChatLoading := False\<rparr>
             | Inr (Stream chunks failure) \<Rightarrow>
                 (let ms = streamReply chunks []
                             (chatMessages cur @ [\<lparr>role = Model, content = []\<rparr>])
                  in case failure of
                       None \<Rightarrow> cur\<lparr>chatMessages := ms, isChatLoading := False\<rparr>
                     | Some e \<Rightarrow> cur\<lparr>chatMessages := chatCatch env e ms,
                                     isChatLoading := False\<rparr>)))"

section \<open>Sequences of runs\<close>

text \<open>Submissions handled one after the other, each with the collaborators' answers to it.\<close>

fun runAll :: "(Collaborators \<times> Submission) list \<Rightarrow> App \<Rightarrow> App" where
  "runAll [] st = st"
| "runAll (r # rs) st = runAll rs (handleRunPipeline (fst r) (snd r) st)"

text \<open>The history item a submission produces: none if it is empty or its run fails.\<close>

definition producedItem :: "Collaborators \<times> Submission \<Rightarrow> HistoryItem option" where
  "producedItem r =
     (if noInput (snd r) then None
      else (case fst (runPipeline (fst r) (snd r)) of
              Some userFacingError \<Rightarrow> None
            | None \<Rightarrow> Some (newHistoryItem (fst r) (snd r) (snd (runPipeline (fst r) (snd r))))))"

section \<open>Sample collaborators and submissions\<close>

definition sampleTextual :: TextualAnalysisOutput where
  "sampleTextual = \<lparr>summary = ''s'', sentiment = Neutral, entities = [], key_words = []\<rparr>"

definition sampleSource :: "int \<Rightarrow> SourceIntelligenceOutput" where
  "sampleSource n = \<lparr>trust_score = n, source_validity = ''Low'',
     source_validity_explanation = ''x'', evidence = []\<rparr>"

text \<open>
  Collaborators that all answer; the ingestion finds the text given, the source agent
  reports the trust score given.
\<close>

definition sampleEnv :: "string \<Rightarrow> int \<Rightarrow> Collaborators" where
  "sampleEnv found score =
     \<lparr>readAsDataURL = (\<lambda>f. Inr \<lparr>img_data = ''AAAA'', mimeType = ''image/png''\<rparr>),
      hostname = (\<lambda>u. Inr ''example.com''),
      getMisinformationRecordByDomain = (\<lambda>d. Inr None),
      generateContent = (\<lambda>u. Inr found),
      extractText = (\<lambda>r. Inr r),
      performTextualAnalysis = (\<lambda>t. Inr sampleTextual),
      performEmotionAnalysis =
        (\<lambda>t. Inr \<lparr>dominant_emotion = ''Fear'', manipulation_level = Low\<rparr>),
      extractFramesFromVideo = (\<lambda>f. Inr []),
      performVisualAnalysis = (\<lambda>v. Inr \<lparr>visual_insights = []\<rparr>),
      performSourceIntelligence = (\<lambda>d. Inr (sampleSource score)),
      dateNow = 1000,
      generateFinalBrief = (\<lambda>r. Stream [''Report '', ''A''] None),
      newDateISO = (''2025-01-01T00:00:00.000Z'', ''2025-01-01T00:00:00.001Z''),
      getFriendlyErrorMessage = (\<lambda>e. case e of Error m \<Rightarrow> m),
      generateComparisonBrief = (\<lambda>items. Stream [''Both '', ''agree''] (Some (Error ''quota''))),
      sendMessageStream = (\<lambda>c m. Inr (Stream [''Low '', ''risk''] None))\<rparr>"

definition urlSubmission :: Submission where
  "urlSubmission = \<lparr>submittedUrl = ''https://example.com/a'', imageFile = None,
     videoFile = None, textInput = []\<rparr>"

definition imageSubmission :: Submission where
  "imageSubmission = \<lparr>submittedUrl = [], imageFile = Some \<lparr>file_name = ''a.png''\<rparr>,
     videoFile = None, textInput = []\<rparr>"

definition textSubmission :: Submission where
  "textSubmission = \<lparr>submittedUrl = [], imageFile = None, videoFile = None,
     textInput = ''Some claim''\<rparr>"

definition initialApp :: App where
  "initialApp = \<lparr>url = [], isLoading = False, pipelineState = INITIAL_PIPELINE_STATE,
     analysisResults = emptyResults, finalReport = None, error = None, history = [],
     activeAnalysisId = None, misinformationWarning = None, chatSession = None,
     chatMessages = [], isChatLoading = False, isCompareMode = False,
     selectedHistoryIds = [], isComparing = False, comparisonReport = None,
     showComparisonView = False\<rparr>"

text \<open>Collaborators whose textual analysis throws.\<close>

definition failingTextualEnv :: Collaborators where
  "failingTextualEnv = (sampleEnv ''abc'' 39)\<lparr>performTextualAnalysis := (\<lambda>t. Inl (Error ''quota''))\<rparr>"

text \<open>Two history ids selected for comparison.\<close>

definition twoSelected :: App where
  "twoSelected = initialApp\<lparr>selectedHistoryIds := [''a'', ''b'']\<rparr>"

text \<open>The application after a successful run on raw text: the chat is ready.\<close>

definition readyChat :: App where
  "readyChat = handleRunPipeline (sampleEnv [] 39) textSubmission initialApp"

text \<open>Two submissions, a URL and then raw text, both of which run to the end.\<close>

definition twoRuns :: "(Collaborators \<times> Submission) list" where
  "twoRuns = [(sampleEnv ''abc'' 39, urlSubmission), (sampleEnv [] 39, textSubmission)]"

section \<open>Predicates on the locals of a run\<close>

text \<open>
  A triple for a step of the try block: from a state satisfying \<open>P\<close>, the step either
  returns in a state satisfying \<open>Q\<close> or throws in a state satisfying \<open>R\<close>.
\<close>

definition hoare ::
  "(RunLocals \<Rightarrow> bool) \<Rightarrow> step \<Rightarrow> (RunLocals \<Rightarrow> bool) \<Rightarrow> (RunLocals \<Rightarrow> bool) \<Rightarrow> bool" where
  "hoare P f Q R = (\<forall>s. P s \<longrightarrow> (fst (f s) = None \<longrightarrow> Q (snd (f s)))
     \<and> (fst (f s) \<noteq> None \<longrightarrow> R (snd (f s))))"

text \<open>No stage is Running or in Error.\<close>

definition calm :: "RunLocals \<Rightarrow> bool" where
  "calm s = (\<forall>a. status (currentPipelineState s a) \<in> {PENDING, COMPLETED, SKIPPED})"

text \<open>Stage \<open>a\<close> is Running and it is the only one; no stage is in Error.\<close>

definition oneRunning :: "AgentName \<Rightarrow> RunLocals \<Rightarrow> bool" where
  "oneRunning a s = (status (currentPipelineState s a) = RUNNING
     \<and> (\<forall>b. b \<noteq> a \<longrightarrow> status (currentPipelineState s b) \<in> {PENDING, COMPLETED, SKIPPED}))"

definition someRunning :: "RunLocals \<Rightarrow> bool" where
  "someRunning s = (\<exists>a. oneRunning a s)"

definition settled :: "AgentName \<Rightarrow> RunLocals \<Rightarrow> bool" where
  "settled a s = (status (currentPipelineState s a) \<in> {COMPLETED, SKIPPED})"

definition doneUpTo :: "AgentName list \<Rightarrow> RunLocals \<Rightarrow> bool" where
  "doneUpTo as s = (calm s \<and> (\<forall>a\<in>set as. settled a s))"

text \<open>The entry of stage \<open>b\<close> satisfies \<open>P\<close> now and in every state published so far.\<close>

definition always :: "AgentName \<Rightarrow> (StageEntry \<Rightarrow> bool) \<Rightarrow> RunLocals \<Rightarrow> bool" where
  "always b P s = (P (currentPipelineState s b) \<and> (\<forall>ps\<in>set (published s). P (ps b)))"

definition isPending :: "StageEntry \<Rightarrow> bool" where
  "isPending x = (status x = PENDING)"

text \<open>The entry of stage \<open>b\<close> satisfies \<open>P\<close> now.\<close>

definition entryIs :: "AgentName \<Rightarrow> (StageEntry \<Rightarrow> bool) \<Rightarrow> RunLocals \<Rightarrow> bool" where
  "entryIs b P s = P (currentPipelineState s b)"

text \<open>When the ingestion entry is Skipped, and with which reason.\<close>

definition skipRule :: "Submission \<Rightarrow> StageEntry \<Rightarrow> bool" where
  "skipRule inp x = (((status x = SKIPPED) = (submittedUrl inp = [] \<and> textInput inp = []))
     \<and> (status x = SKIPPED \<longrightarrow> details x = Some ''No URL or text provided''))"

text \<open>
  Before the source stage has run: nothing was written to the memory, there is no source
  result. After it: the writes are those the source result calls for.
\<close>

definition noSourceYet :: "RunLocals \<Rightarrow> bool" where
  "noSourceYet s = (memoryWrites s = [] \<and> source (currentAnalysisResults s) = None
     \<and> status (currentPipelineState s SOURCE_INTELLIGENCE) = PENDING)"

definition writeBackDone :: "Collaborators \<Rightarrow> Submission \<Rightarrow> RunLocals \<Rightarrow> bool" where
  "writeBackDone env inp s =
     (memoryWrites s =
        (case source (currentAnalysisResults s) of
           None \<Rightarrow> []
         | Some r \<Rightarrow>
             if trust_score r < 40
             then [\<lparr>rec_domain = ingestionDomain s, rec_url = submittedUrl inp,
                    trustScore = trust_score r, rec_timestamp = dateNow env\<rparr>]
             else [])
      \<and> ((status (currentPipelineState s SOURCE_INTELLIGENCE) = COMPLETED)
           = (source (currentAnalysisResults s) \<noteq> None)))"

text \<open>
  The two text stages, on a run whose ingestion stage has ended Completed or Skipped with
  no text (an empty one, or no ingestion result at all): both Pending at
  first, then the textual one Skipped, then both, and never anything but Pending or Skipped
  in what the run has published.
\<close>

definition pendingOrSkipped :: "StageEntry \<Rightarrow> bool" where
  "pendingOrSkipped x = (status x = PENDING \<or> status x = SKIPPED)"

definition emptyIngestionText :: "RunLocals \<Rightarrow> bool" where
  "emptyIngestionText s =
     (ingestionText s = []
      \<and> status (currentPipelineState s CONTENT_INGESTION) \<in> {COMPLETED, SKIPPED})"

definition textStagesSkipped :: "RunLocals \<Rightarrow> bool" where
  "textStagesSkipped s =
     (emptyIngestionText s \<longrightarrow>
        status (currentPipelineState s TEXTUAL_ANALYSIS) = SKIPPED
        \<and> status (currentPipelineState s EMOTION_ANALYSIS) = SKIPPED
        \<and> always TEXTUAL_ANALYSIS pendingOrSkipped s
        \<and> always EMOTION_ANALYSIS pendingOrSkipped s)"

definition textStagesPending :: "RunLocals \<Rightarrow> bool" where
  "textStagesPending s =
     (always TEXTUAL_ANALYSIS isPending s \<and> always EMOTION_ANALYSIS isPending s)"

definition textualSkipped :: "RunLocals \<Rightarrow> bool" where
  "textualSkipped s =
     (always EMOTION_ANALYSIS isPending s
      \<and> (emptyIngestionText s \<longrightarrow>
            status (currentPipelineState s TEXTUAL_ANALYSIS) = SKIPPED
            \<and> always TEXTUAL_ANALYSIS pendingOrSkipped s))"

text \<open>
  How far a run has got: the stages before \<open>f\<close> are Completed or Skipped and those after it
  Pending, with \<open>f\<close> itself still Pending or, alone, Running.
\<close>

definition pendingFrom :: "AgentName \<Rightarrow> RunLocals \<Rightarrow> bool" where
  "pendingFrom f s =
     (\<forall>b. (stageIndex b < stageIndex f \<longrightarrow> status (currentPipelineState s b) \<in> {COMPLETED, SKIPPED})
        \<and> (stageIndex f \<le> stageIndex b \<longrightarrow> status (currentPipelineState s b) = PENDING))"

definition runningAt :: "AgentName \<Rightarrow> RunLocals \<Rightarrow> bool" where
  "runningAt f s =
     (status (currentPipelineState s f) = RUNNING
      \<and> (\<forall>b. (stageIndex b < stageIndex f \<longrightarrow> status (currentPipelineState s b) \<in> {COMPLETED, SKIPPED})
            \<and> (stageIndex f < stageIndex b \<longrightarrow> status (currentPipelineState s b) = PENDING)))"

definition stoppedAt :: "RunLocals \<Rightarrow> bool" where
  "stoppedAt s = (\<exists>f. pendingFrom f s \<or> runningAt f s)"

text \<open>A step that writes the entry of stage \<open>a\<close> only, in the state and in what it publishes.\<close>

definition touches :: "AgentName \<Rightarrow> step \<Rightarrow> bool" where
  "touches a f = (\<forall>s. (\<forall>b. b \<noteq> a \<longrightarrow> currentPipelineState (snd (f s)) b = currentPipelineState s b)
      \<and> (\<forall>ps\<in>set (published (snd (f s))). ps \<in> set (published s)
            \<or> (\<forall>b. b \<noteq> a \<longrightarrow> ps b = currentPipelineState s b)))"

section \<open>Rules for steps\<close>

lemma hoare_andThen:
  assumes "hoare P f Q R" and "hoare Q g Q' R"
  shows "hoare P (andThen f g) Q' R"
  using assms unfolding hoare_def andThen_def by (auto split: option.splits)

lemma hoare_weaken:
  assumes "hoare P f Q R" and "\<And>s. P' s \<Longrightarrow> P s" and "\<And>s. Q s \<Longrightarrow> Q' s"
    and "\<And>s. R s \<Longrightarrow> R' s"
  shows "hoare P' f Q' R'"
  using assms unfolding hoare_def by blast

lemma updateAndTrackStatus_simps [simp]:
  "currentPipelineState (updateAndTrackStatus a x d s) =
     (currentPipelineState s)(a := \<lparr>status = x, details = d\<rparr>)"
  "published (updateAndTrackStatus a x d s) =
     published s @ [(currentPipelineState s)(a := \<lparr>status = x, details = d\<rparr>)]"
  "currentAnalysisResults (updateAndTrackStatus a x d s) = currentAnalysisResults s"
  "memoryWrites (updateAndTrackStatus a x d s) = memoryWrites s"
  "shownReport (updateAndTrackStatus a x d s) = shownReport s"
  "fullReport (updateAndTrackStatus a x d s) = fullReport s"
  by (simp_all add: updateAndTrackStatus_def Let_def)

lemma misinformationWriteBack_simps [simp]:
  "currentPipelineState (misinformationWriteBack env inp r s) = currentPipelineState s"
  "published (misinformationWriteBack env inp r s) = published s"
  "currentAnalysisResults (misinformationWriteBack env inp r s) = currentAnalysisResults s"
  by (simp_all add: misinformationWriteBack_def)

lemmas stage_defs = ingestionStage_def textualStage_def emotionStage_def visualStage_def
  sourceStage_def finalSynthesisStage_def Let_def

lemma consumeReport_frame [simp]:
  "currentPipelineState (consumeReport cs s) = currentPipelineState s"
  "published (consumeReport cs s) = published s"
  "currentAnalysisResults (consumeReport cs s) = currentAnalysisResults s"
  "memoryWrites (consumeReport cs s) = memoryWrites s"
  by (induction cs arbitrary: s) simp_all

subsection \<open>Each stage leaves at most itself Running\<close>

lemma ingestion_calm:
  "hoare calm (ingestionStage env inp) (\<lambda>s. calm s \<and> settled CONTENT_INGESTION s)
     (oneRunning CONTENT_INGESTION)"
  unfolding hoare_def calm_def settled_def oneRunning_def stage_defs
  by (auto split: sum.splits)

lemma textual_calm:
  "hoare calm (textualStage env) (\<lambda>s. calm s \<and> settled TEXTUAL_ANALYSIS s)
     (oneRunning TEXTUAL_ANALYSIS)"
  unfolding hoare_def calm_def settled_def oneRunning_def stage_defs
  by (auto split: sum.splits)

lemma emotion_calm:
  "hoare calm (emotionStage env) (\<lambda>s. calm s \<and> settled EMOTION_ANALYSIS s)
     (oneRunning EMOTION_ANALYSIS)"
  unfolding hoare_def calm_def settled_def oneRunning_def stage_defs
  by (auto split: sum.splits)

lemma visual_calm:
  "hoare calm (visualStage env inp img) (\<lambda>s. calm s \<and> settled VISUAL_ANALYSIS s)
     (oneRunning VISUAL_ANALYSIS)"
  unfolding hoare_def calm_def settled_def oneRunning_def stage_defs
  by (auto split: sum.splits option.splits)

lemma source_calm:
  "hoare calm (sourceStage env inp) (\<lambda>s. calm s \<and> settled SOURCE_INTELLIGENCE s)
     (oneRunning SOURCE_INTELLIGENCE)"
  unfolding hoare_def calm_def settled_def oneRunning_def stage_defs
  by (auto split: sum.splits)

lemma final_calm:
  "hoare calm (finalSynthesisStage env) (\<lambda>s. calm s \<and> settled FINAL_SYNTHESIS s)
     (\<lambda>s. calm s \<or> oneRunning FINAL_SYNTHESIS s)"
  unfolding hoare_def calm_def settled_def oneRunning_def stage_defs
  by (auto split: sum.splits option.splits chunkStream.splits)

subsection \<open>Each stage writes its own entry only\<close>

lemma ingestion_touches: "touches CONTENT_INGESTION (ingestionStage env inp)"
  unfolding touches_def stage_defs by (auto split: sum.splits)

lemma textual_touches: "touches TEXTUAL_ANALYSIS (textualStage env)"
  unfolding touches_def stage_defs by (auto split: sum.splits)

lemma emotion_touches: "touches EMOTION_ANALYSIS (emotionStage env)"
  unfolding touches_def stage_defs by (auto split: sum.splits)

lemma visual_touches: "touches VISUAL_ANALYSIS (visualStage env inp img)"
  unfolding touches_def stage_defs by (auto split: sum.splits option.splits)

lemma source_touches: "touches SOURCE_INTELLIGENCE (sourceStage env inp)"
  unfolding touches_def stage_defs by (auto split: sum.splits)

lemma final_touches: "touches FINAL_SYNTHESIS (finalSynthesisStage env)"
  unfolding touches_def stage_defs by (auto split: sum.splits option.splits chunkStream.splits)

lemma touches_always:
  assumes "touches a f" and "b \<noteq> a"
  shows "hoare (always b P) f (always b P) (always b P)"
proof -
  have "always b P (snd (f s))" if h: "always b P s" for s
  proof -
    have cur: "currentPipelineState (snd (f s)) b = currentPipelineState s b"
      using assms unfolding touches_def by blast
    have pub: "P (ps b)" if "ps \<in> set (published (snd (f s)))" for ps
    proof -
      from assms(1) that have "ps \<in> set (published s)
          \<or> (\<forall>c. c \<noteq> a \<longrightarrow> ps c = currentPipelineState s c)"
        unfolding touches_def by blast
      then show ?thesis
        using h assms(2) unfolding always_def by auto
    qed
    show ?thesis
      using h cur pub unfolding always_def by simp
  qed
  then show ?thesis
    unfolding hoare_def by blast
qed

subsection \<open>The shape of the pipeline state at the end of the try block\<close>

lemma oneRunning_some: "oneRunning a s \<Longrightarrow> someRunning s"
  unfolding someRunning_def by blast

lemma stage_done:
  assumes c: "hoare calm f (\<lambda>s. calm s \<and> settled a s) (oneRunning a)" and t: "touches a f"
  shows "hoare (doneUpTo as) f (doneUpTo (a # as)) someRunning"
  unfolding hoare_def
proof (intro allI impI conjI)
  fix s
  assume d: "doneUpTo as s"
  then have cs: "calm s"
    by (simp add: doneUpTo_def)
  have fr: "currentPipelineState (snd (f s)) b = currentPipelineState s b" if "b \<noteq> a" for b
    using t that unfolding touches_def by blast
  show "doneUpTo (a # as) (snd (f s))" if n: "fst (f s) = None"
  proof -
    have 1: "calm (snd (f s))" "settled a (snd (f s))"
      using c cs n unfolding hoare_def by blast+
    have "settled b (snd (f s))" if "b \<in> set as" for b
    proof (cases "b = a")
      case True
      then show ?thesis using 1 by simp
    next
      case False
      from that d have "settled b s" by (simp add: doneUpTo_def)
      with fr[OF False] show ?thesis by (simp add: settled_def)
    qed
    with 1 show ?thesis by (auto simp: doneUpTo_def)
  qed
  show "someRunning (snd (f s))" if "fst (f s) \<noteq> None"
    using c cs that oneRunning_some unfolding hoare_def by blast
qed

lemma stages_done:
  "hoare (doneUpTo []) (stagesBeforeSynthesis env inp img)
     (doneUpTo [SOURCE_INTELLIGENCE, VISUAL_ANALYSIS, EMOTION_ANALYSIS, TEXTUAL_ANALYSIS, CONTENT_INGESTION])
     someRunning"
  unfolding stagesBeforeSynthesis_def
  apply (rule hoare_andThen[OF stage_done[OF ingestion_calm ingestion_touches]])
  apply (rule hoare_andThen[OF stage_done[OF textual_calm textual_touches]])
  apply (rule hoare_andThen[OF stage_done[OF emotion_calm emotion_touches]])
  apply (rule hoare_andThen[OF stage_done[OF visual_calm visual_touches]])
  apply (rule stage_done[OF source_calm source_touches])
  done

lemma final_done:
  "hoare (doneUpTo as) (finalSynthesisStage env) (doneUpTo (FINAL_SYNTHESIS # as))
     (\<lambda>s. calm s \<or> someRunning s)"
  unfolding hoare_def
proof (intro allI impI conjI)
  fix s
  assume d: "doneUpTo as s"
  then have cs: "calm s"
    by (simp add: doneUpTo_def)
  let ?f = "finalSynthesisStage env"
  have fr: "currentPipelineState (snd (?f s)) b = currentPipelineState s b" if "b \<noteq> FINAL_SYNTHESIS" for b
    using final_touches that unfolding touches_def by blast
  show "doneUpTo (FINAL_SYNTHESIS # as) (snd (?f s))" if n: "fst (?f s) = None"
  proof -
    have 1: "calm (snd (?f s))" "settled FINAL_SYNTHESIS (snd (?f s))"
      using final_calm cs n unfolding hoare_def by blast+
    have "settled b (snd (?f s))" if "b \<in> set as" for b
    proof (cases "b = FINAL_SYNTHESIS")
      case True
      then show ?thesis using 1 by simp
    next
      case False
      from that d have "settled b s" by (simp add: doneUpTo_def)
      with fr[OF False] show ?thesis by (simp add: settled_def)
    qed
    with 1 show ?thesis by (auto simp: doneUpTo_def)
  qed
  show "calm (snd (?f s)) \<or> someRunning (snd (?f s))" if "fst (?f s) \<noteq> None"
    using final_calm cs that oneRunning_some unfolding hoare_def by blast
qed

lemma initial_calm: "doneUpTo [] initialLocals"
  by (simp add: doneUpTo_def calm_def initialLocals_def INITIAL_PIPELINE_STATE_def)

lemma beforeSynthesis_shape:
  "(fst (beforeSynthesis env inp) = None \<longrightarrow>
      doneUpTo [SOURCE_INTELLIGENCE, VISUAL_ANALYSIS, EMOTION_ANALYSIS, TEXTUAL_ANALYSIS, CONTENT_INGESTION]
        (snd (beforeSynthesis env inp)))
   \<and> (fst (beforeSynthesis env inp) \<noteq> None \<longrightarrow>
        calm (snd (beforeSynthesis env inp)) \<or> someRunning (snd (beforeSynthesis env inp)))"
proof (cases "readImage env inp")
  case (Inl e)
  then show ?thesis
    using initial_calm by (simp add: beforeSynthesis_def doneUpTo_def)
next
  case (Inr img)
  then show ?thesis
    using stages_done[of env inp img] initial_calm
    unfolding hoare_def by (simp add: beforeSynthesis_def)
qed

lemma tryBody_shape:
  "(fst (tryBody env inp) = None \<longrightarrow>
      doneUpTo [FINAL_SYNTHESIS, SOURCE_INTELLIGENCE, VISUAL_ANALYSIS, EMOTION_ANALYSIS, TEXTUAL_ANALYSIS,
        CONTENT_INGESTION] (snd (tryBody env inp)))
   \<and> (fst (tryBody env inp) \<noteq> None \<longrightarrow>
        calm (snd (tryBody env inp)) \<or> someRunning (snd (tryBody env inp)))"
proof (cases "fst (beforeSynthesis env inp)")
  case None
  then show ?thesis
    using beforeSynthesis_shape[of env inp] final_done[of _ env]
    unfolding hoare_def by (simp add: tryBody_def)
next
  case (Some e)
  then show ?thesis
    using beforeSynthesis_shape[of env inp] by (simp add: tryBody_def)
qed

lemma calm_not_running: "calm s \<Longrightarrow> status (currentPipelineState s a) \<noteq> RUNNING"
  unfolding calm_def by (erule allE[of _ a]) auto

lemma runningAgent_calm: "calm s \<Longrightarrow> runningAgent (currentPipelineState s) = None"
  unfolding runningAgent_def agentOrder_def
  by (simp add: calm_not_running)

lemma runningAgent_one: "oneRunning a s \<Longrightarrow> runningAgent (currentPipelineState s) = Some a"
  unfolding oneRunning_def runningAgent_def agentOrder_def
  by (cases a) auto

lemma catchBlock_calm:
  "calm s \<Longrightarrow> catchBlock env e s = (''Pipeline failed: '' @ getFriendlyErrorMessage env e, s)"
  by (simp add: catchBlock_def runningAgent_calm)

lemma catchBlock_one:
  "oneRunning a s \<Longrightarrow> catchBlock env e s =
     (stageFailureMessage a (getFriendlyErrorMessage env e),
      updateAndTrackStatus a ERROR (Some (getFriendlyErrorMessage env e)) s)"
  by (simp add: catchBlock_def runningAgent_one Let_def)

lemma catchBlock_not_running:
  assumes "calm s \<or> someRunning s"
  shows "status (currentPipelineState (snd (catchBlock env e s)) a) \<noteq> RUNNING"
  using assms
proof
  assume "calm s"
  then show ?thesis
    by (simp add: catchBlock_calm calm_not_running)
next
  assume "someRunning s"
  then obtain b where b: "oneRunning b s"
    unfolding someRunning_def by blast
  then show ?thesis
    by (auto simp: catchBlock_one oneRunning_def)
qed


subsection \<open>The pipeline state at the end of a run\<close>

lemma runPipeline_not_running:
  "status (currentPipelineState (snd (runPipeline env inp)) a) \<noteq> RUNNING"
proof (cases "fst (tryBody env inp)")
  case None
  then have "calm (snd (tryBody env inp))"
    using tryBody_shape[of env inp] by (simp add: doneUpTo_def)
  with None show ?thesis
    by (simp add: runPipeline_def calm_not_running)
next
  case (Some e)
  then show ?thesis
    using tryBody_shape[of env inp] catchBlock_not_running[of "snd (tryBody env inp)" env e a]
    by (simp add: runPipeline_def)
qed

lemma runPipeline_success_settled:
  assumes "fst (runPipeline env inp) = None"
  shows "status (currentPipelineState (snd (runPipeline env inp)) a) \<in> {COMPLETED, SKIPPED}"
proof -
  from assms have n: "fst (tryBody env inp) = None"
    by (simp add: runPipeline_def split: option.splits)
  then have "doneUpTo [FINAL_SYNTHESIS, SOURCE_INTELLIGENCE, VISUAL_ANALYSIS, EMOTION_ANALYSIS,
      TEXTUAL_ANALYSIS, CONTENT_INGESTION] (snd (tryBody env inp))"
    using tryBody_shape[of env inp] by simp
  then have "settled a (snd (tryBody env inp))"
    unfolding doneUpTo_def by (cases a) simp_all
  with n show ?thesis
    by (simp add: runPipeline_def settled_def)
qed

lemma handleRunPipeline_fields:
  assumes "\<not> noInput inp"
  shows "pipelineState (handleRunPipeline env inp st)
           = currentPipelineState (snd (runPipeline env inp))"
    and "error (handleRunPipeline env inp st) = fst (runPipeline env inp)"
    and "analysisResults (handleRunPipeline env inp st)
           = currentAnalysisResults (snd (runPipeline env inp))"
    and "isLoading (handleRunPipeline env inp st) = False"
  using assms
  by (simp_all add: handleRunPipeline_def Let_def resetAnalysisState_def split: option.splits)

lemma handleRunPipeline_noInput: "noInput inp \<Longrightarrow> handleRunPipeline env inp st = st"
  by (simp add: handleRunPipeline_def)

subsection \<open>How far a failed run has got\<close>

lemma stageIndex_inj: "stageIndex a = stageIndex b \<Longrightarrow> a = b"
  by (cases a; cases b) simp_all

lemma agentOrder_stageIndex: "agentOrder ! stageIndex a = a"
  by (cases a) (simp_all add: agentOrder_def)

lemma pendingFrom_calm: "pendingFrom f s \<Longrightarrow> calm s"
  unfolding pendingFrom_def calm_def
proof
  fix a
  assume h: "\<forall>b. (stageIndex b < stageIndex f \<longrightarrow> status (currentPipelineState s b) \<in> {COMPLETED, SKIPPED})
        \<and> (stageIndex f \<le> stageIndex b \<longrightarrow> status (currentPipelineState s b) = PENDING)"
  show "status (currentPipelineState s a) \<in> {PENDING, COMPLETED, SKIPPED}"
    using h[rule_format, of a] by (cases "stageIndex a < stageIndex f") auto
qed

lemma runningAt_oneRunning: "runningAt f s \<Longrightarrow> oneRunning f s"
  unfolding runningAt_def oneRunning_def
proof (intro conjI allI impI)
  assume h: "status (currentPipelineState s f) = RUNNING \<and>
    (\<forall>b. (stageIndex b < stageIndex f \<longrightarrow> status (currentPipelineState s b) \<in> {COMPLETED, SKIPPED})
        \<and> (stageIndex f < stageIndex b \<longrightarrow> status (currentPipelineState s b) = PENDING))"
  then show "status (currentPipelineState s f) = RUNNING"
    by simp
  fix b assume "b \<noteq> f"
  then have "stageIndex b \<noteq> stageIndex f"
    using stageIndex_inj by blast
  then have "stageIndex b < stageIndex f \<or> stageIndex f < stageIndex b"
    by arith
  with h show "status (currentPipelineState s b) \<in> {PENDING, COMPLETED, SKIPPED}"
    by auto
qed

lemma stage_progress:
  assumes c: "hoare calm f (\<lambda>s. calm s \<and> settled a s) (oneRunning a)" and t: "touches a f"
    and n: "stageIndex a' = Suc (stageIndex a)"
  shows "hoare (pendingFrom a) f (pendingFrom a') stoppedAt"
  unfolding hoare_def
proof (intro allI impI conjI)
  fix s
  assume p: "pendingFrom a s"
  then have cs: "calm s"
    by (rule pendingFrom_calm)
  have fr: "currentPipelineState (snd (f s)) b = currentPipelineState s b" if "b \<noteq> a" for b
    using t that unfolding touches_def by blast
  have lo: "status (currentPipelineState s b) \<in> {COMPLETED, SKIPPED}"
    if "stageIndex b < stageIndex a" for b
    using p that unfolding pendingFrom_def by blast
  have hi: "status (currentPipelineState s b) = PENDING" if "stageIndex a \<le> stageIndex b" for b
    using p that unfolding pendingFrom_def by blast
  show "pendingFrom a' (snd (f s))" if r: "fst (f s) = None"
    unfolding pendingFrom_def
  proof (intro allI conjI impI)
    fix b
    assume b: "stageIndex b < stageIndex a'"
    show "status (currentPipelineState (snd (f s)) b) \<in> {COMPLETED, SKIPPED}"
    proof (cases "b = a")
      case True
      then show ?thesis
        using c cs r unfolding hoare_def settled_def by blast
    next
      case False
      then have "stageIndex b \<noteq> stageIndex a"
        using stageIndex_inj by blast
      with b n have "stageIndex b < stageIndex a"
        by arith
      with lo fr[OF False] show ?thesis
        by simp
    qed
  next
    fix b
    assume b: "stageIndex a' \<le> stageIndex b"
    with n have "b \<noteq> a" and "stageIndex a \<le> stageIndex b"
      by auto
    with hi fr show "status (currentPipelineState (snd (f s)) b) = PENDING"
      by simp
  qed
  show "stoppedAt (snd (f s))" if r: "fst (f s) \<noteq> None"
  proof -
    have "status (currentPipelineState (snd (f s)) a) = RUNNING"
      using c cs r unfolding hoare_def oneRunning_def by blast
    moreover have "status (currentPipelineState (snd (f s)) b) \<in> {COMPLETED, SKIPPED}"
      if "stageIndex b < stageIndex a" for b
    proof -
      from that have "b \<noteq> a" by auto
      with lo[OF that] fr show ?thesis by simp
    qed
    moreover have "status (currentPipelineState (snd (f s)) b) = PENDING"
      if "stageIndex a < stageIndex b" for b
    proof -
      from that have "b \<noteq> a" and "stageIndex a \<le> stageIndex b" by auto
      with hi fr show ?thesis by simp
    qed
    ultimately have "runningAt a (snd (f s))"
      unfolding runningAt_def by blast
    then show ?thesis
      unfolding stoppedAt_def by blast
  qed
qed

lemma stages_progress:
  "hoare (pendingFrom CONTENT_INGESTION) (stagesBeforeSynthesis env inp img)
     (pendingFrom FINAL_SYNTHESIS) stoppedAt"
proof -
  have 1: "hoare (pendingFrom CONTENT_INGESTION) (ingestionStage env inp)
      (pendingFrom TEXTUAL_ANALYSIS) stoppedAt"
    by (rule stage_progress[OF ingestion_calm ingestion_touches]) simp
  have 2: "hoare (pendingFrom TEXTUAL_ANALYSIS) (textualStage env)
      (pendingFrom EMOTION_ANALYSIS) stoppedAt"
    by (rule stage_progress[OF textual_calm textual_touches]) simp
  have 3: "hoare (pendingFrom EMOTION_ANALYSIS) (emotionStage env)
      (pendingFrom VISUAL_ANALYSIS) stoppedAt"
    by (rule stage_progress[OF emotion_calm emotion_touches]) simp
  have 4: "hoare (pendingFrom VISUAL_ANALYSIS) (visualStage env inp img)
      (pendingFrom SOURCE_INTELLIGENCE) stoppedAt"
    by (rule stage_progress[OF visual_calm visual_touches]) simp
  have 5: "hoare (pendingFrom SOURCE_INTELLIGENCE) (sourceStage env inp)
      (pendingFrom FINAL_SYNTHESIS) stoppedAt"
    by (rule stage_progress[OF source_calm source_touches]) simp
  show ?thesis
    unfolding stagesBeforeSynthesis_def
    by (rule hoare_andThen[OF 1 hoare_andThen[OF 2 hoare_andThen[OF 3 hoare_andThen[OF 4 5]]]])
qed

lemma final_progress:
  assumes p: "pendingFrom FINAL_SYNTHESIS s" and r: "fst (finalSynthesisStage env s) \<noteq> None"
  shows "stoppedAt (snd (finalSynthesisStage env s))"
proof (cases "textual (currentAnalysisResults s) = None \<and> visual (currentAnalysisResults s) = None")
  case True
  then have "finalSynthesisStage env s = (Some noDataError, s)"
    by (simp add: finalSynthesisStage_def)
  with p show ?thesis
    unfolding stoppedAt_def by auto
next
  case False
  let ?s = "snd (finalSynthesisStage env s)"
  have fr: "currentPipelineState ?s b = currentPipelineState s b" if "b \<noteq> FINAL_SYNTHESIS" for b
    using final_touches that unfolding touches_def by blast
  have run: "status (currentPipelineState ?s FINAL_SYNTHESIS) = RUNNING"
    using False r
    by (auto simp: finalSynthesisStage_def Let_def split: chunkStream.splits option.splits)
  have "status (currentPipelineState ?s b) \<in> {COMPLETED, SKIPPED}"
    if "stageIndex b < stageIndex FINAL_SYNTHESIS" for b
  proof -
    from that have "b \<noteq> FINAL_SYNTHESIS" by auto
    with fr p that show ?thesis
      unfolding pendingFrom_def by simp
  qed
  moreover have "status (currentPipelineState ?s b) = PENDING"
    if "stageIndex FINAL_SYNTHESIS < stageIndex b" for b
    using that by (cases b) simp_all
  ultimately have "runningAt FINAL_SYNTHESIS ?s"
    using run unfolding runningAt_def by blast
  then show ?thesis
    unfolding stoppedAt_def by blast
qed

lemma tryBody_stopped:
  assumes "fst (tryBody env inp) \<noteq> None"
  shows "stoppedAt (snd (tryBody env inp))"
proof -
  have i: "pendingFrom CONTENT_INGESTION initialLocals"
    by (simp add: pendingFrom_def initialLocals_def INITIAL_PIPELINE_STATE_def)
  show ?thesis
  proof (cases "readImage env inp")
    case (Inl e)
    with i show ?thesis
      unfolding stoppedAt_def by (auto simp: tryBody_def beforeSynthesis_def)
  next
    case (Inr img)
    then have b: "beforeSynthesis env inp = stagesBeforeSynthesis env inp img initialLocals"
      by (simp add: beforeSynthesis_def)
    show ?thesis
    proof (cases "fst (beforeSynthesis env inp)")
      case None
      then have "pendingFrom FINAL_SYNTHESIS (snd (beforeSynthesis env inp))"
        using stages_progress[of env inp img] i b unfolding hoare_def by simp
      from final_progress[OF this, of env] assms None show ?thesis
        by (simp add: tryBody_def)
    next
      case (Some e)
      then have "stoppedAt (snd (beforeSynthesis env inp))"
        using stages_progress[of env inp img] i b unfolding hoare_def by simp
      with Some show ?thesis
        by (simp add: tryBody_def)
    qed
  qed
qed

lemma catchBlock_stopped:
  assumes "stoppedAt s"
  shows "\<exists>f. (\<forall>a. stageIndex a < stageIndex f \<longrightarrow>
              status (currentPipelineState (snd (catchBlock env e s)) a) \<in> {COMPLETED, SKIPPED})
     \<and> status (currentPipelineState (snd (catchBlock env e s)) f) \<in> {ERROR, PENDING}
     \<and> (\<forall>a. stageIndex f < stageIndex a \<longrightarrow>
              status (currentPipelineState (snd (catchBlock env e s)) a) = PENDING)"
proof -
  from assms obtain f where "pendingFrom f s \<or> runningAt f s"
    unfolding stoppedAt_def by blast
  then show ?thesis
  proof
    assume p: "pendingFrom f s"
    then have "catchBlock env e s = (''Pipeline failed: '' @ getFriendlyErrorMessage env e, s)"
      by (simp add: catchBlock_calm pendingFrom_calm)
    with p show ?thesis
      unfolding pendingFrom_def by (intro exI[of _ f]) simp
  next
    assume r: "runningAt f s"
    then have "catchBlock env e s = (stageFailureMessage f (getFriendlyErrorMessage env e),
        updateAndTrackStatus f ERROR (Some (getFriendlyErrorMessage env e)) s)"
      by (simp add: catchBlock_one runningAt_oneRunning)
    with r show ?thesis
      unfolding runningAt_def by (intro exI[of _ f]) auto
  qed
qed

lemma runPipeline_failed_shape:
  assumes "fst (runPipeline env inp) \<noteq> None"
  shows "\<exists>f. (\<forall>a. stageIndex a < stageIndex f \<longrightarrow>
              status (currentPipelineState (snd (runPipeline env inp)) a) \<in> {COMPLETED, SKIPPED})
     \<and> status (currentPipelineState (snd (runPipeline env inp)) f) \<in> {ERROR, PENDING}
     \<and> (\<forall>a. stageIndex f < stageIndex a \<longrightarrow>
              status (currentPipelineState (snd (runPipeline env inp)) a) = PENDING)"
proof (cases "fst (tryBody env inp)")
  case None
  with assms show ?thesis
    by (simp add: runPipeline_def)
next
  case (Some e)
  then have "stoppedAt (snd (tryBody env inp))"
    using tryBody_stopped[of env inp] by simp
  from catchBlock_stopped[OF this, of env e] Some show ?thesis
    by (simp add: runPipeline_def)
qed

lemma calm_neither:
  assumes "calm s"
  shows "status (currentPipelineState s a) \<noteq> ERROR" and "status (currentPipelineState s a) \<noteq> RUNNING"
  using assms unfolding calm_def by (auto dest: spec[of _ a])

lemma catchBlock_error_iff:
  assumes "calm s \<or> someRunning s"
  shows "(status (currentPipelineState (snd (catchBlock env e s)) a) = ERROR)
     = (status (currentPipelineState s a) = RUNNING)"
  using assms
proof
  assume c: "calm s"
  then show ?thesis
    using calm_neither[OF c, of a] by (simp add: catchBlock_calm)
next
  assume "someRunning s"
  then obtain f where f: "oneRunning f s"
    unfolding someRunning_def by blast
  show ?thesis
  proof (cases "a = f")
    case True
    with f show ?thesis
      by (simp add: catchBlock_one oneRunning_def)
  next
    case False
    with f have "status (currentPipelineState s a) \<in> {PENDING, COMPLETED, SKIPPED}"
      unfolding oneRunning_def by blast
    with False f show ?thesis
      by (auto simp: catchBlock_one)
  qed
qed

lemma runPipeline_error_iff:
  "(status (currentPipelineState (snd (runPipeline env inp)) a) = ERROR)
     = (status (currentPipelineState (snd (tryBody env inp)) a) = RUNNING)"
proof (cases "fst (tryBody env inp)")
  case None
  then have "calm (snd (tryBody env inp))"
    using tryBody_shape[of env inp] by (simp add: doneUpTo_def)
  from calm_neither[OF this, of a] None show ?thesis
    by (simp add: runPipeline_def)
next
  case (Some e)
  then have "calm (snd (tryBody env inp)) \<or> someRunning (snd (tryBody env inp))"
    using tryBody_shape[of env inp] by simp
  from catchBlock_error_iff[OF this, of env e a] Some show ?thesis
    by (simp add: runPipeline_def)
qed

section \<open>Stage statuses at the end of a run\<close>

text \<open>
  C1, as amended. A run on a non-empty submission leaves no stage Running. After a run that
  reports no error every one of the six stages is Completed or Skipped. After a run that
  reports an error there is a stage, in the fixed order of the stages, such that every stage
  before it is Completed or Skipped, the stage itself is in Error or Pending, and every stage
  after it is Pending: the stages that were never started remain Pending. A stage ends in
  Error exactly if it was Running when the try block was left.
\<close>

theorem run_leaves_no_stage_running:
  assumes "\<not> noInput inp"
  shows "(\<forall>a. status (pipelineState (handleRunPipeline env inp st) a) \<noteq> RUNNING)
     \<and> (error (handleRunPipeline env inp st) = None \<longrightarrow>
          (\<forall>a. status (pipelineState (handleRunPipeline env inp st) a) \<in> {COMPLETED, SKIPPED}))
     \<and> (error (handleRunPipeline env inp st) \<noteq> None \<longrightarrow>
          (\<exists>f. (\<forall>a. stageIndex a < stageIndex f \<longrightarrow>
                   status (pipelineState (handleRunPipeline env inp st) a) \<in> {COMPLETED, SKIPPED})
             \<and> status (pipelineState (handleRunPipeline env inp st) f) \<in> {ERROR, PENDING}
             \<and> (\<forall>a. stageIndex f < stageIndex a \<longrightarrow>
                   status (pipelineState (handleRunPipeline env inp st) a) = PENDING)))
     \<and> (\<forall>a. (status (pipelineState (handleRunPipeline env inp st) a) = ERROR)
            = (status (currentPipelineState (snd (tryBody env inp)) a) = RUNNING))"
  using runPipeline_not_running[of env inp] runPipeline_success_settled[of env inp]
    runPipeline_failed_shape[of env inp] runPipeline_error_iff[of env inp]
  by (simp add: handleRunPipeline_fields[OF assms])

text \<open>
  C1, witness: a raw-text submission whose collaborators all answer runs to the end without
  an error, and its final synthesis stage is Completed or Skipped, not Running; a URL
  submission whose textual analysis throws ends with an error, that stage in Error and the
  next one Pending.
\<close>

theorem run_leaves_no_stage_running_witness:
  "\<not> noInput textSubmission
   \<and> error (handleRunPipeline (sampleEnv [] 39) textSubmission initialApp) = None
   \<and> status (pipelineState (handleRunPipeline (sampleEnv [] 39) textSubmission initialApp)
        FINAL_SYNTHESIS) \<noteq> RUNNING
   \<and> status (pipelineState (handleRunPipeline (sampleEnv [] 39) textSubmission initialApp)
        FINAL_SYNTHESIS) \<in> {COMPLETED, SKIPPED}
   \<and> \<not> noInput urlSubmission
   \<and> error (handleRunPipeline failingTextualEnv urlSubmission initialApp) \<noteq> None
   \<and> status (pipelineState (handleRunPipeline failingTextualEnv urlSubmission initialApp)
        TEXTUAL_ANALYSIS) = ERROR
   \<and> status (pipelineState (handleRunPipeline failingTextualEnv urlSubmission initialApp)
        EMOTION_ANALYSIS) = PENDING"
proof -
  have h: "\<not> noInput textSubmission"
    by code_simp
  have e: "error (handleRunPipeline (sampleEnv [] 39) textSubmission initialApp) = None"
    by code_simp
  have h': "\<not> noInput urlSubmission"
    by code_simp
  let ?ps = "pipelineState (handleRunPipeline failingTextualEnv urlSubmission initialApp)"
  have e': "error (handleRunPipeline failingTextualEnv urlSubmission initialApp) \<noteq> None"
    by code_simp
  have t: "status (?ps TEXTUAL_ANALYSIS) = ERROR"
    by code_simp
  from run_leaves_no_stage_running[OF h', of failingTextualEnv initialApp] e'
  obtain f where lo: "\<forall>a. stageIndex a < stageIndex f \<longrightarrow> status (?ps a) \<in> {COMPLETED, SKIPPED}"
    and hi: "\<forall>a. stageIndex f < stageIndex a \<longrightarrow> status (?ps a) = PENDING"
    by blast
  have "\<not> stageIndex TEXTUAL_ANALYSIS < stageIndex f"
    using lo[rule_format, of TEXTUAL_ANALYSIS] t by auto
  moreover have "\<not> stageIndex f < stageIndex TEXTUAL_ANALYSIS"
    using hi[rule_format, of TEXTUAL_ANALYSIS] t by auto
  ultimately have "stageIndex f < stageIndex EMOTION_ANALYSIS"
    by simp
  with hi have m: "status (?ps EMOTION_ANALYSIS) = PENDING"
    by blast
  from run_leaves_no_stage_running[OF h, of "sampleEnv [] 39" initialApp] h e h' e' t m
  show ?thesis
    by blast
qed

text \<open>
  C1, counterexample to the claim as stated: a URL whose ingestion finds no text, with no
  image or video. The run ends with a reported error and the final synthesis stage is still
  Pending, which is not a terminal status.
\<close>

theorem failed_run_leaves_stage_pending:
  "status (pipelineState (handleRunPipeline (sampleEnv [] 39) urlSubmission initialApp)
     FINAL_SYNTHESIS) = PENDING
   \<and> error (handleRunPipeline (sampleEnv [] 39) urlSubmission initialApp)
       = Some ''Pipeline failed: No data available to generate a brief. Provide a URL, image, or text.''"
  by code_simp

section \<open>The precondition of the final synthesis\<close>

lemma runningAgent_Some: "runningAgent ps = Some a \<Longrightarrow> status (ps a) = RUNNING"
  unfolding runningAgent_def by (auto simp: find_Some_iff)

lemma catchBlock_results [simp]:
  "currentAnalysisResults (snd (catchBlock env e s)) = currentAnalysisResults s"
  "memoryWrites (snd (catchBlock env e s)) = memoryWrites s"
  by (simp_all add: catchBlock_def Let_def split: option.splits)

lemma catchBlock_always:
  assumes "always b P s" and "status (currentPipelineState s b) \<noteq> RUNNING"
  shows "always b P (snd (catchBlock env e s))"
proof (cases "runningAgent (currentPipelineState s)")
  case None
  with assms(1) show ?thesis
    by (simp add: catchBlock_def)
next
  case (Some a)
  with assms(2) have "a \<noteq> b"
    using runningAgent_Some by blast
  with Some assms(1) show ?thesis
    by (simp add: catchBlock_def Let_def always_def)
qed

lemma final_results [simp]:
  "currentAnalysisResults (snd (finalSynthesisStage env s)) = currentAnalysisResults s"
  "memoryWrites (snd (finalSynthesisStage env s)) = memoryWrites s"
  by (simp_all add: finalSynthesisStage_def Let_def split: chunkStream.splits option.splits)

lemma final_no_data:
  assumes "textual (currentAnalysisResults s) = None" and "visual (currentAnalysisResults s) = None"
  shows "finalSynthesisStage env s = (Some noDataError, s)"
  using assms by (simp add: finalSynthesisStage_def)

lemma stages_always_final:
  "hoare (always FINAL_SYNTHESIS P) (stagesBeforeSynthesis env inp img)
     (always FINAL_SYNTHESIS P) (always FINAL_SYNTHESIS P)"
proof -
  let ?A = "always FINAL_SYNTHESIS P"
  have 1: "hoare ?A (ingestionStage env inp) ?A ?A"
    by (rule touches_always[OF ingestion_touches]) simp
  have 2: "hoare ?A (textualStage env) ?A ?A"
    by (rule touches_always[OF textual_touches]) simp
  have 3: "hoare ?A (emotionStage env) ?A ?A"
    by (rule touches_always[OF emotion_touches]) simp
  have 4: "hoare ?A (visualStage env inp img) ?A ?A"
    by (rule touches_always[OF visual_touches]) simp
  have 5: "hoare ?A (sourceStage env inp) ?A ?A"
    by (rule touches_always[OF source_touches]) simp
  show ?thesis
    unfolding stagesBeforeSynthesis_def
    by (rule hoare_andThen[OF 1 hoare_andThen[OF 2 hoare_andThen[OF 3 hoare_andThen[OF 4 5]]]])
qed

lemma beforeSynthesis_final_pending:
  "always FINAL_SYNTHESIS isPending (snd (beforeSynthesis env inp))"
proof -
  have i: "always FINAL_SYNTHESIS isPending initialLocals"
    by (simp add: always_def isPending_def initialLocals_def INITIAL_PIPELINE_STATE_def)
  show ?thesis
  proof (cases "readImage env inp")
    case (Inl e)
    with i show ?thesis
      by (simp add: beforeSynthesis_def)
  next
    case (Inr img)
    with i stages_always_final[of isPending env inp img] show ?thesis
      unfolding hoare_def by (simp add: beforeSynthesis_def) blast
  qed
qed

lemma abortsForNoData_run:
  assumes "abortsForNoData env inp"
  shows "tryBody env inp = (Some noDataError, snd (beforeSynthesis env inp))"
    and "runPipeline env inp = (Some (''Pipeline failed: '' @ getFriendlyErrorMessage env noDataError),
           snd (beforeSynthesis env inp))"
proof -
  from assms have n: "fst (beforeSynthesis env inp) = None"
    and t: "textual (currentAnalysisResults (snd (beforeSynthesis env inp))) = None"
    and v: "visual (currentAnalysisResults (snd (beforeSynthesis env inp))) = None"
    by (simp_all add: abortsForNoData_def)
  show 1: "tryBody env inp = (Some noDataError, snd (beforeSynthesis env inp))"
    using n final_no_data[OF t v] by (simp add: tryBody_def)
  from n have "calm (snd (beforeSynthesis env inp))"
    using beforeSynthesis_shape[of env inp] by (simp add: doneUpTo_def)
  then show "runPipeline env inp = (Some (''Pipeline failed: '' @ getFriendlyErrorMessage env noDataError),
           snd (beforeSynthesis env inp))"
    by (simp add: runPipeline_def 1 catchBlock_calm)
qed

lemma no_data_cases:
  assumes "textual (currentAnalysisResults (snd (runPipeline env inp))) = None"
    and "visual (currentAnalysisResults (snd (runPipeline env inp))) = None"
  shows "abortsForNoData env inp \<or> fst (beforeSynthesis env inp) \<noteq> None"
proof (cases "fst (beforeSynthesis env inp)")
  case None
  have "currentAnalysisResults (snd (runPipeline env inp))
      = currentAnalysisResults (snd (beforeSynthesis env inp))"
    using None by (simp add: runPipeline_def tryBody_def split: option.splits)
  with assms None show ?thesis
    by (simp add: abortsForNoData_def)
next
  case (Some e)
  then show ?thesis by simp
qed

text \<open>
  C2. Whenever a run ends with neither the textual nor the visual result populated, the run
  has failed and the final synthesis stage is Pending, hence not Running, in every pipeline
  state the run has published; and if the run got as far as the final synthesis (nothing was
  thrown before it), what it threw is the no-data error, reported as a pipeline failure.
\<close>

theorem no_data_fails_before_synthesis_runs:
  assumes "textual (currentAnalysisResults (snd (runPipeline env inp))) = None"
    and "visual (currentAnalysisResults (snd (runPipeline env inp))) = None"
  shows "fst (runPipeline env inp) \<noteq> None
     \<and> (\<forall>ps\<in>set (published (snd (runPipeline env inp))). status (ps FINAL_SYNTHESIS) = PENDING)
     \<and> (fst (beforeSynthesis env inp) = None \<longrightarrow>
          fst (tryBody env inp) = Some noDataError
          \<and> fst (runPipeline env inp)
              = Some (''Pipeline failed: '' @ getFriendlyErrorMessage env noDataError))"
proof -
  note p = beforeSynthesis_final_pending[of env inp]
  from no_data_cases[OF assms] show ?thesis
  proof
    assume a: "abortsForNoData env inp"
    from abortsForNoData_run[OF a] p show ?thesis
      by (simp add: always_def isPending_def)
  next
    assume b: "fst (beforeSynthesis env inp) \<noteq> None"
    then obtain e where e: "fst (beforeSynthesis env inp) = Some e"
      by blast
    from p have "status (currentPipelineState (snd (beforeSynthesis env inp)) FINAL_SYNTHESIS) \<noteq> RUNNING"
      by (simp add: always_def isPending_def)
    from catchBlock_always[OF p this, of env e] e show ?thesis
      by (simp add: runPipeline_def tryBody_def always_def isPending_def)
  qed
qed

text \<open>
  C2, witness: a URL whose ingestion finds no text, with no image or video.
\<close>

theorem no_data_fails_before_synthesis_runs_witness:
  "textual (currentAnalysisResults (snd (runPipeline (sampleEnv [] 39) urlSubmission))) = None
   \<and> visual (currentAnalysisResults (snd (runPipeline (sampleEnv [] 39) urlSubmission))) = None
   \<and> fst (beforeSynthesis (sampleEnv [] 39) urlSubmission) = None
   \<and> published (snd (runPipeline (sampleEnv [] 39) urlSubmission)) \<noteq> []
   \<and> status (last (published (snd (runPipeline (sampleEnv [] 39) urlSubmission))) FINAL_SYNTHESIS)
       = PENDING
   \<and> fst (runPipeline (sampleEnv [] 39) urlSubmission)
       = Some (''Pipeline failed: '' @ getFriendlyErrorMessage (sampleEnv [] 39) noDataError)"
proof -
  have t: "textual (currentAnalysisResults (snd (runPipeline (sampleEnv [] 39) urlSubmission))) = None"
    by code_simp
  have v: "visual (currentAnalysisResults (snd (runPipeline (sampleEnv [] 39) urlSubmission))) = None"
    by code_simp
  have b: "fst (beforeSynthesis (sampleEnv [] 39) urlSubmission) = None"
    by code_simp
  have p: "published (snd (runPipeline (sampleEnv [] 39) urlSubmission)) \<noteq> []"
    by code_simp
  from no_data_fails_before_synthesis_runs[OF t v] t v b p show ?thesis
    by simp
qed

text \<open>
  C9. If the run aborts because neither textual nor visual data is present, then at the end
  no stage is in Error (each is Pending, Completed or Skipped), the final synthesis stage is
  still Pending, and the run is reported as failed with the no-data error. The catch block
  changes the entry of a stage only if that stage is Running.
\<close>

theorem no_data_abort_marks_no_error:
  assumes "\<not> noInput inp" and "abortsForNoData env inp"
  shows "(\<forall>a. status (pipelineState (handleRunPipeline env inp st) a) \<in> {PENDING, COMPLETED, SKIPPED})
     \<and> status (pipelineState (handleRunPipeline env inp st) FINAL_SYNTHESIS) = PENDING
     \<and> error (handleRunPipeline env inp st)
         = Some (''Pipeline failed: '' @ getFriendlyErrorMessage env noDataError)
     \<and> (currentPipelineState (snd (catchBlock env e s)) a = currentPipelineState s a
          \<or> status (currentPipelineState s a) = RUNNING)"
proof -
  from assms(2) have n: "fst (beforeSynthesis env inp) = None"
    by (simp add: abortsForNoData_def)
  then have c: "calm (snd (beforeSynthesis env inp))"
    using beforeSynthesis_shape[of env inp] by (simp add: doneUpTo_def)
  have p: "status (currentPipelineState (snd (beforeSynthesis env inp)) FINAL_SYNTHESIS) = PENDING"
    using beforeSynthesis_final_pending[of env inp] by (simp add: always_def isPending_def)
  have k: "currentPipelineState (snd (catchBlock env e s)) a = currentPipelineState s a
      \<or> status (currentPipelineState s a) = RUNNING"
  proof (cases "runningAgent (currentPipelineState s)")
    case None
    then show ?thesis by (simp add: catchBlock_def)
  next
    case (Some b)
    then show ?thesis
      using runningAgent_Some[OF Some] by (cases "a = b") (simp_all add: catchBlock_def Let_def)
  qed
  from c p k show ?thesis
    by (simp add: handleRunPipeline_fields[OF assms(1)] abortsForNoData_run[OF assms(2)] calm_def)
qed

text \<open>
  C9, witness: the same submission; the source stage has completed, nothing is in Error.
\<close>

theorem no_data_abort_marks_no_error_witness:
  "\<not> noInput urlSubmission \<and> abortsForNoData (sampleEnv [] 39) urlSubmission
   \<and> status (pipelineState (handleRunPipeline (sampleEnv [] 39) urlSubmission initialApp)
        SOURCE_INTELLIGENCE) \<in> {PENDING, COMPLETED, SKIPPED}
   \<and> status (pipelineState (handleRunPipeline (sampleEnv [] 39) urlSubmission initialApp)
        FINAL_SYNTHESIS) = PENDING
   \<and> error (handleRunPipeline (sampleEnv [] 39) urlSubmission initialApp)
        = Some (''Pipeline failed: '' @ getFriendlyErrorMessage (sampleEnv [] 39) noDataError)"
proof -
  have h: "\<not> noInput urlSubmission"
    by code_simp
  have a: "abortsForNoData (sampleEnv [] 39) urlSubmission"
    by code_simp
  from no_data_abort_marks_no_error[OF h a, of initialApp] h a show ?thesis
    by blast
qed

section \<open>When the ingestion stage is skipped\<close>

lemma touches_keeps:
  assumes "touches a f" and "b \<noteq> a"
  shows "hoare (entryIs b P) f (entryIs b P) (entryIs b P)"
  using assms unfolding touches_def hoare_def entryIs_def by simp

lemma ingestion_skipRule:
  "hoare (\<lambda>s. True) (ingestionStage env inp) (entryIs CONTENT_INGESTION (skipRule inp))
     (entryIs CONTENT_INGESTION (skipRule inp))"
  unfolding hoare_def entryIs_def skipRule_def stage_defs
  by (auto split: sum.splits)

lemma stages_skipRule:
  "hoare (\<lambda>s. True) (stagesBeforeSynthesis env inp img)
     (entryIs CONTENT_INGESTION (skipRule inp)) (entryIs CONTENT_INGESTION (skipRule inp))"
proof -
  let ?A = "entryIs CONTENT_INGESTION (skipRule inp)"
  have 2: "hoare ?A (textualStage env) ?A ?A"
    by (rule touches_keeps[OF textual_touches]) simp
  have 3: "hoare ?A (emotionStage env) ?A ?A"
    by (rule touches_keeps[OF emotion_touches]) simp
  have 4: "hoare ?A (visualStage env inp img) ?A ?A"
    by (rule touches_keeps[OF visual_touches]) simp
  have 5: "hoare ?A (sourceStage env inp) ?A ?A"
    by (rule touches_keeps[OF source_touches]) simp
  show ?thesis
    unfolding stagesBeforeSynthesis_def
    by (rule hoare_andThen[OF ingestion_skipRule
          hoare_andThen[OF 2 hoare_andThen[OF 3 hoare_andThen[OF 4 5]]]])
qed

lemma catchBlock_entry:
  "currentPipelineState (snd (catchBlock env e s)) a = currentPipelineState s a
   \<or> (status (currentPipelineState s a) = RUNNING
       \<and> status (currentPipelineState (snd (catchBlock env e s)) a) = ERROR)"
proof (cases "runningAgent (currentPipelineState s)")
  case None
  then show ?thesis
    by (simp add: catchBlock_def)
next
  case (Some b)
  then show ?thesis
    using runningAgent_Some[OF Some] by (cases "a = b") (simp_all add: catchBlock_def Let_def)
qed

lemma tryBody_skipRule:
  assumes "readImage env inp = Inr img"
  shows "skipRule inp (currentPipelineState (snd (tryBody env inp)) CONTENT_INGESTION)"
proof -
  let ?A = "entryIs CONTENT_INGESTION (skipRule inp)"
  have b: "?A (snd (beforeSynthesis env inp))"
    using stages_skipRule[of env inp img] assms
    unfolding hoare_def by (simp add: beforeSynthesis_def) blast
  have f: "hoare ?A (finalSynthesisStage env) ?A ?A"
    by (rule touches_keeps[OF final_touches]) simp
  show ?thesis
  proof (cases "fst (beforeSynthesis env inp)")
    case None
    with b f show ?thesis
      unfolding hoare_def by (simp add: tryBody_def entryIs_def) blast
  next
    case (Some e)
    with b show ?thesis
      by (simp add: tryBody_def entryIs_def)
  qed
qed

lemma runPipeline_skipRule:
  assumes "readImage env inp = Inr img"
  shows "skipRule inp (currentPipelineState (snd (runPipeline env inp)) CONTENT_INGESTION)"
proof (cases "fst (tryBody env inp)")
  case None
  with tryBody_skipRule[OF assms] show ?thesis
    by (simp add: runPipeline_def)
next
  case (Some e)
  with tryBody_skipRule[OF assms]
    catchBlock_entry[of env e "snd (tryBody env inp)" CONTENT_INGESTION]
  show ?thesis
    by (auto simp: runPipeline_def skipRule_def)
qed

lemma runPipeline_image_failed:
  assumes "readImage env inp = Inl e"
  shows "status (currentPipelineState (snd (runPipeline env inp)) a) = PENDING"
proof -
  have t: "tryBody env inp = (Some e, initialLocals)"
    using assms by (simp add: tryBody_def beforeSynthesis_def)
  have "calm initialLocals"
    using initial_calm by (simp add: doneUpTo_def)
  then show ?thesis
    by (simp add: runPipeline_def t catchBlock_calm initialLocals_def INITIAL_PIPELINE_STATE_def)
qed

text \<open>
  C3, as amended. A submission with none of the four input kinds starts no run and marks no
  stage. On any other submission the ingestion stage ends Skipped exactly when neither a URL
  nor raw text was submitted and the uploaded image, if any, could be read; the reason given
  is then that no URL or text was provided. So a URL or raw text rules the skip out, an
  image or a video does not.
\<close>

theorem ingestion_skipped_iff_no_url_or_text:
  "(noInput inp \<longrightarrow> handleRunPipeline env inp st = st)
   \<and> (\<not> noInput inp \<longrightarrow>
        ((status (pipelineState (handleRunPipeline env inp st) CONTENT_INGESTION) = SKIPPED)
           = (submittedUrl inp = [] \<and> textInput inp = [] \<and> \<not> isl (readImage env inp)))
        \<and> (status (pipelineState (handleRunPipeline env inp st) CONTENT_INGESTION) = SKIPPED
            \<longrightarrow> details (pipelineState (handleRunPipeline env inp st) CONTENT_INGESTION)
                  = Some ''No URL or text provided''))"
proof (cases "noInput inp")
  case True
  then show ?thesis
    by (simp add: handleRunPipeline_noInput)
next
  case False
  show ?thesis
  proof (cases "readImage env inp")
    case (Inl e)
    from runPipeline_image_failed[OF Inl, of CONTENT_INGESTION] False Inl show ?thesis
      by (simp add: handleRunPipeline_fields[OF False])
  next
    case (Inr img)
    from runPipeline_skipRule[OF Inr] False Inr show ?thesis
      by (simp add: handleRunPipeline_fields[OF False] skipRule_def)
  qed
qed

text \<open>
  C3, witness: an image alone; the ingestion stage is skipped for want of a URL or text.
\<close>

theorem ingestion_skipped_iff_no_url_or_text_witness:
  "\<not> noInput imageSubmission
   \<and> submittedUrl imageSubmission = [] \<and> textInput imageSubmission = []
   \<and> \<not> isl (readImage (sampleEnv [] 39) imageSubmission)
   \<and> status (pipelineState (handleRunPipeline (sampleEnv [] 39) imageSubmission initialApp)
        CONTENT_INGESTION) = SKIPPED
   \<and> details (pipelineState (handleRunPipeline (sampleEnv [] 39) imageSubmission initialApp)
        CONTENT_INGESTION) = Some ''No URL or text provided''"
proof -
  have h: "\<not> noInput imageSubmission"
    by code_simp
  have c: "submittedUrl imageSubmission = [] \<and> textInput imageSubmission = []
     \<and> \<not> isl (readImage (sampleEnv [] 39) imageSubmission)"
    by code_simp
  from ingestion_skipped_iff_no_url_or_text[of imageSubmission "sampleEnv [] 39" initialApp] h c
  show ?thesis
    by simp
qed

text \<open>
  C3, counterexample to the claim as stated: an image was submitted, so one of the four
  input kinds is present, and the ingestion stage is Skipped all the same.
\<close>

theorem image_only_submission_skips_ingestion:
  "imageFile imageSubmission = Some \<lparr>file_name = ''a.png''\<rparr>
   \<and> status (pipelineState (handleRunPipeline (sampleEnv [] 39) imageSubmission initialApp)
        CONTENT_INGESTION) = SKIPPED"
  by code_simp

section \<open>The write-back to the misinformation memory\<close>

lemma noSourceYet_writeBackDone: "noSourceYet s \<Longrightarrow> writeBackDone env inp s"
  by (simp add: noSourceYet_def writeBackDone_def)

lemma ingestion_noSource: "hoare noSourceYet (ingestionStage env inp) noSourceYet noSourceYet"
  unfolding hoare_def noSourceYet_def stage_defs by (auto split: sum.splits)

lemma textual_noSource: "hoare noSourceYet (textualStage env) noSourceYet noSourceYet"
  unfolding hoare_def noSourceYet_def stage_defs by (auto split: sum.splits)

lemma emotion_noSource: "hoare noSourceYet (emotionStage env) noSourceYet noSourceYet"
  unfolding hoare_def noSourceYet_def stage_defs by (auto split: sum.splits)

lemma visual_noSource: "hoare noSourceYet (visualStage env inp img) noSourceYet noSourceYet"
  unfolding hoare_def noSourceYet_def stage_defs by (auto split: sum.splits option.splits)

lemma source_writeBack:
  "hoare noSourceYet (sourceStage env inp) (writeBackDone env inp) (writeBackDone env inp)"
  unfolding hoare_def noSourceYet_def writeBackDone_def sourceStage_def Let_def
    misinformationWriteBack_def MISINFORMATION_THRESHOLD_def ingestionDomain_def
  by (auto split: sum.splits)

lemma stages_writeBack:
  "hoare noSourceYet (stagesBeforeSynthesis env inp img)
     (writeBackDone env inp) (writeBackDone env inp)"
proof -
  let ?W = "writeBackDone env inp"
  have 1: "hoare noSourceYet (ingestionStage env inp) noSourceYet ?W"
    by (rule hoare_weaken[OF ingestion_noSource]) (simp_all add: noSourceYet_writeBackDone)
  have 2: "hoare noSourceYet (textualStage env) noSourceYet ?W"
    by (rule hoare_weaken[OF textual_noSource]) (simp_all add: noSourceYet_writeBackDone)
  have 3: "hoare noSourceYet (emotionStage env) noSourceYet ?W"
    by (rule hoare_weaken[OF emotion_noSource]) (simp_all add: noSourceYet_writeBackDone)
  have 4: "hoare noSourceYet (visualStage env inp img) noSourceYet ?W"
    by (rule hoare_weaken[OF visual_noSource]) (simp_all add: noSourceYet_writeBackDone)
  show ?thesis
    unfolding stagesBeforeSynthesis_def
    by (rule hoare_andThen[OF 1 hoare_andThen[OF 2 hoare_andThen[OF 3
          hoare_andThen[OF 4 source_writeBack]]]])
qed

lemma final_writeBack:
  "writeBackDone env inp s \<Longrightarrow> writeBackDone env inp (snd (finalSynthesisStage env s))"
proof -
  assume w: "writeBackDone env inp s"
  have "currentPipelineState (snd (finalSynthesisStage env s)) SOURCE_INTELLIGENCE
      = currentPipelineState s SOURCE_INTELLIGENCE"
    using final_touches unfolding touches_def by simp
  moreover have "ingestionDomain (snd (finalSynthesisStage env s)) = ingestionDomain s"
    by (simp add: ingestionDomain_def)
  ultimately show ?thesis
    using w by (simp add: writeBackDone_def split: option.splits)
qed

lemma tryBody_writeBack: "writeBackDone env inp (snd (tryBody env inp))"
proof -
  have i: "noSourceYet initialLocals"
    by (simp add: noSourceYet_def initialLocals_def emptyResults_def INITIAL_PIPELINE_STATE_def)
  have b: "writeBackDone env inp (snd (beforeSynthesis env inp))"
  proof (cases "readImage env inp")
    case (Inl e)
    with i show ?thesis
      by (simp add: beforeSynthesis_def noSourceYet_writeBackDone)
  next
    case (Inr img)
    with i stages_writeBack[of env inp img] show ?thesis
      unfolding hoare_def by (simp add: beforeSynthesis_def) blast
  qed
  show ?thesis
  proof (cases "fst (beforeSynthesis env inp)")
    case None
    with final_writeBack[OF b] show ?thesis
      by (simp add: tryBody_def)
  next
    case (Some e)
    with b show ?thesis
      by (simp add: tryBody_def)
  qed
qed

lemma runPipeline_writeBack: "writeBackDone env inp (snd (runPipeline env inp))"
proof (cases "fst (tryBody env inp)")
  case None
  with tryBody_writeBack[of env inp] show ?thesis
    by (simp add: runPipeline_def)
next
  case (Some e)
  with tryBody_writeBack[of env inp]
    catchBlock_entry[of env e "snd (tryBody env inp)" SOURCE_INTELLIGENCE]
  show ?thesis
    by (auto simp: runPipeline_def writeBackDone_def ingestionDomain_def)
qed

text \<open>
  C4. At the end of a run, the source stage is Completed exactly when a source result is
  present, and the writes the run has asked of the misinformation memory are: none if there
  is no source result or its trust score is 40 or more, and exactly one, for the ingested
  domain and with that score, if the trust score is strictly below 40.
\<close>

theorem memory_write_iff_trust_below_40:
  "memoryWrites (snd (runPipeline env inp)) =
     (case source (currentAnalysisResults (snd (runPipeline env inp))) of
        None \<Rightarrow> []
      | Some r \<Rightarrow>
          if trust_score r < 40
          then [\<lparr>rec_domain = ingestionDomain (snd (runPipeline env inp)),
                 rec_url = submittedUrl inp, trustScore = trust_score r,
                 rec_timestamp = dateNow env\<rparr>]
          else [])
   \<and> ((status (currentPipelineState (snd (runPipeline env inp)) SOURCE_INTELLIGENCE) = COMPLETED)
        = (source (currentAnalysisResults (snd (runPipeline env inp))) \<noteq> None))"
  using runPipeline_writeBack[of env inp] by (simp add: writeBackDone_def)

text \<open>
  C4, at the boundary: a trust score of 39 triggers the write for the domain, 40 does not.
\<close>

theorem memory_write_iff_trust_below_40_witness:
  "status (currentPipelineState (snd (runPipeline (sampleEnv [] 39) urlSubmission))
     SOURCE_INTELLIGENCE) = COMPLETED
   \<and> memoryWrites (snd (runPipeline (sampleEnv [] 39) urlSubmission))
       = [\<lparr>rec_domain = ''example.com'', rec_url = ''https://example.com/a'', trustScore = 39,
           rec_timestamp = 1000\<rparr>]
   \<and> status (currentPipelineState (snd (runPipeline (sampleEnv [] 40) urlSubmission))
       SOURCE_INTELLIGENCE) = COMPLETED
   \<and> memoryWrites (snd (runPipeline (sampleEnv [] 40) urlSubmission)) = []"
proof -
  have a: "source (currentAnalysisResults (snd (runPipeline (sampleEnv [] 39) urlSubmission)))
      = Some (sampleSource 39)"
    by code_simp
  have b: "source (currentAnalysisResults (snd (runPipeline (sampleEnv [] 40) urlSubmission)))
      = Some (sampleSource 40)"
    by code_simp
  have d: "ingestionDomain (snd (runPipeline (sampleEnv [] 39) urlSubmission)) = ''example.com''"
    by code_simp
  have u: "submittedUrl urlSubmission = ''https://example.com/a''"
    "dateNow (sampleEnv [] 39) = 1000"
    by (simp_all add: urlSubmission_def sampleEnv_def)
  from memory_write_iff_trust_below_40[of "sampleEnv [] 39" urlSubmission]
    memory_write_iff_trust_below_40[of "sampleEnv [] 40" urlSubmission]
  show ?thesis
    by (simp add: a b d u sampleSource_def)
qed

section \<open>The text stages on an empty ingestion text\<close>

lemmas text_defs = textStagesSkipped_def textStagesPending_def textualSkipped_def
  emptyIngestionText_def always_def isPending_def pendingOrSkipped_def ingestionText_def

lemma ingestion_text:
  "hoare (\<lambda>s. textStagesPending s \<and> ingestion (currentAnalysisResults s) = None)
     (ingestionStage env inp) textStagesPending textStagesSkipped"
  unfolding hoare_def text_defs stage_defs by (auto split: sum.splits)

lemma textual_text: "hoare textStagesPending (textualStage env) textualSkipped textStagesSkipped"
  unfolding hoare_def text_defs stage_defs by (auto split: sum.splits option.splits)

lemma emotion_text: "hoare textualSkipped (emotionStage env) textStagesSkipped textStagesSkipped"
  unfolding hoare_def text_defs stage_defs by (auto split: sum.splits option.splits)

lemma visual_text:
  "hoare textStagesSkipped (visualStage env inp img) textStagesSkipped textStagesSkipped"
  unfolding hoare_def text_defs stage_defs by (auto split: sum.splits option.splits)

lemma source_text:
  "hoare textStagesSkipped (sourceStage env inp) textStagesSkipped textStagesSkipped"
  unfolding hoare_def text_defs stage_defs by (auto split: sum.splits option.splits)

lemma final_text:
  "hoare textStagesSkipped (finalSynthesisStage env) textStagesSkipped textStagesSkipped"
  unfolding hoare_def text_defs stage_defs
  by (auto split: sum.splits option.splits chunkStream.splits)


lemma stages_text:
  "hoare (\<lambda>s. textStagesPending s \<and> ingestion (currentAnalysisResults s) = None)
     (stagesBeforeSynthesis env inp img) textStagesSkipped textStagesSkipped"
  unfolding stagesBeforeSynthesis_def
  by (rule hoare_andThen[OF ingestion_text hoare_andThen[OF textual_text
        hoare_andThen[OF emotion_text hoare_andThen[OF visual_text source_text]]]])

lemma tryBody_text: "textStagesSkipped (snd (tryBody env inp))"
proof -
  have i: "textStagesPending initialLocals \<and> ingestion (currentAnalysisResults initialLocals) = None"
    by (simp add: text_defs initialLocals_def emptyResults_def INITIAL_PIPELINE_STATE_def)
  have b: "textStagesSkipped (snd (beforeSynthesis env inp))"
  proof (cases "readImage env inp")
    case (Inl e)
    with i show ?thesis
      by (simp add: beforeSynthesis_def textStagesSkipped_def emptyIngestionText_def
          initialLocals_def INITIAL_PIPELINE_STATE_def)
  next
    case (Inr img)
    with i stages_text[of env inp img] show ?thesis
      unfolding hoare_def by (simp add: beforeSynthesis_def) blast
  qed
  show ?thesis
  proof (cases "fst (beforeSynthesis env inp)")
    case None
    with b final_text[of env] show ?thesis
      unfolding hoare_def by (simp add: tryBody_def) blast
  next
    case (Some e)
    with b show ?thesis
      by (simp add: tryBody_def)
  qed
qed

lemma catchBlock_text:
  assumes "textStagesSkipped s"
  shows "textStagesSkipped (snd (catchBlock env e s))"
proof (cases "emptyIngestionText s")
  case False
  have "ingestionText (snd (catchBlock env e s)) = ingestionText s"
    by (simp add: ingestionText_def)
  with False catchBlock_entry[of env e s CONTENT_INGESTION]
  have "\<not> emptyIngestionText (snd (catchBlock env e s))"
    by (auto simp: emptyIngestionText_def)
  then show ?thesis
    by (simp add: textStagesSkipped_def)
next
  case True
  with assms have t: "status (currentPipelineState s TEXTUAL_ANALYSIS) = SKIPPED"
    and m: "status (currentPipelineState s EMOTION_ANALYSIS) = SKIPPED"
    and at: "always TEXTUAL_ANALYSIS pendingOrSkipped s"
    and am: "always EMOTION_ANALYSIS pendingOrSkipped s"
    by (simp_all add: textStagesSkipped_def)
  from t have t': "status (currentPipelineState s TEXTUAL_ANALYSIS) \<noteq> RUNNING"
    by simp
  from m have m': "status (currentPipelineState s EMOTION_ANALYSIS) \<noteq> RUNNING"
    by simp
  from catchBlock_entry[of env e s TEXTUAL_ANALYSIS] catchBlock_entry[of env e s EMOTION_ANALYSIS]
    t m catchBlock_always[OF at t', of env e] catchBlock_always[OF am m', of env e]
  show ?thesis
    by (simp add: textStagesSkipped_def)
qed

lemma runPipeline_text: "textStagesSkipped (snd (runPipeline env inp))"
proof (cases "fst (tryBody env inp)")
  case None
  with tryBody_text[of env inp] show ?thesis
    by (simp add: runPipeline_def)
next
  case (Some e)
  with catchBlock_text[OF tryBody_text[of env inp], of env e] show ?thesis
    by (simp add: runPipeline_def)
qed

text \<open>
  C5. Whenever the ingestion stage of a run has ended, Completed or Skipped, and the
  ingestion text is empty (the ingestion found no text, or there is no ingestion result
  because only an image or a video was submitted), the textual analysis and the emotion
  analysis stages both end Skipped, and in every pipeline state the run has published each of
  them is Pending or Skipped: neither was ever Running or in Error.
\<close>

theorem empty_text_skips_text_stages:
  assumes "ingestionText (snd (runPipeline env inp)) = []"
    and "status (currentPipelineState (snd (runPipeline env inp)) CONTENT_INGESTION)
           \<in> {COMPLETED, SKIPPED}"
  shows "status (currentPipelineState (snd (runPipeline env inp)) TEXTUAL_ANALYSIS) = SKIPPED
     \<and> status (currentPipelineState (snd (runPipeline env inp)) EMOTION_ANALYSIS) = SKIPPED
     \<and> (\<forall>ps\<in>set (published (snd (runPipeline env inp))).
           status (ps TEXTUAL_ANALYSIS) \<in> {PENDING, SKIPPED}
           \<and> status (ps EMOTION_ANALYSIS) \<in> {PENDING, SKIPPED})"
  using runPipeline_text[of env inp] assms
  by (auto simp: textStagesSkipped_def emptyIngestionText_def always_def pendingOrSkipped_def)

text \<open>
  C5, witness: a URL whose ingestion finds no text, and an image alone, for which there is
  no ingestion result.
\<close>

theorem empty_text_skips_text_stages_witness:
  "ingestion (currentAnalysisResults (snd (runPipeline (sampleEnv [] 39) urlSubmission)))
     = Some \<lparr>ing_text = [], ing_images = [], ing_domain = ''example.com''\<rparr>
   \<and> status (currentPipelineState (snd (runPipeline (sampleEnv [] 39) urlSubmission))
        CONTENT_INGESTION) = COMPLETED
   \<and> published (snd (runPipeline (sampleEnv [] 39) urlSubmission)) \<noteq> []
   \<and> status (currentPipelineState (snd (runPipeline (sampleEnv [] 39) urlSubmission))
        TEXTUAL_ANALYSIS) = SKIPPED
   \<and> status (currentPipelineState (snd (runPipeline (sampleEnv [] 39) urlSubmission))
        EMOTION_ANALYSIS) = SKIPPED
   \<and> status (hd (published (snd (runPipeline (sampleEnv [] 39) urlSubmission)))
        TEXTUAL_ANALYSIS) \<in> {PENDING, SKIPPED}
   \<and> ingestion (currentAnalysisResults (snd (runPipeline (sampleEnv [] 39) imageSubmission)))
       = None
   \<and> status (currentPipelineState (snd (runPipeline (sampleEnv [] 39) imageSubmission))
        CONTENT_INGESTION) = SKIPPED
   \<and> status (currentPipelineState (snd (runPipeline (sampleEnv [] 39) imageSubmission))
        TEXTUAL_ANALYSIS) = SKIPPED
   \<and> status (currentPipelineState (snd (runPipeline (sampleEnv [] 39) imageSubmission))
        EMOTION_ANALYSIS) = SKIPPED"
proof -
  have i: "ingestion (currentAnalysisResults (snd (runPipeline (sampleEnv [] 39) urlSubmission)))
     = Some \<lparr>ing_text = [], ing_images = [], ing_domain = ''example.com''\<rparr>"
    by code_simp
  have c: "status (currentPipelineState (snd (runPipeline (sampleEnv [] 39) urlSubmission))
        CONTENT_INGESTION) = COMPLETED"
    by code_simp
  have p: "published (snd (runPipeline (sampleEnv [] 39) urlSubmission)) \<noteq> []"
    by code_simp
  have i': "ingestion (currentAnalysisResults (snd (runPipeline (sampleEnv [] 39) imageSubmission)))
       = None"
    by code_simp
  have c': "status (currentPipelineState (snd (runPipeline (sampleEnv [] 39) imageSubmission))
        CONTENT_INGESTION) = SKIPPED"
    by code_simp
  from i have t: "ingestionText (snd (runPipeline (sampleEnv [] 39) urlSubmission)) = []"
    by (simp add: ingestionText_def)
  from i' have t': "ingestionText (snd (runPipeline (sampleEnv [] 39) imageSubmission)) = []"
    by (simp add: ingestionText_def)
  from empty_text_skips_text_stages[OF t] empty_text_skips_text_stages[OF t'] i c p i' c'
  show ?thesis
    by simp
qed

section \<open>The comparative synthesis flow: failure in mid-stream\<close>

lemma consumeComparison_Some:
  "consumeComparison chunks (Some buf) = Some (buf @ concat chunks)"
  by (induction chunks arbitrary: buf) simp_all

text \<open>
  C6. When the comparison stream fails after some chunks, the error shown is
  \<open>Comparison failed: \<close> followed by the translated cause, the selection of history items
  is cleared, and the comparison report still holds every chunk received before the failure,
  concatenated in order.
\<close>

theorem comparison_failure_keeps_streamed_text:
  assumes "2 \<le> length (selectedHistoryIds st)"
    and "generateComparisonBrief env (reportsToCompare st) = Stream chunks (Some e)"
  shows "error (handleRunComparison env st)
           = Some (''Comparison failed: '' @ getFriendlyErrorMessage env e)
     \<and> selectedHistoryIds (handleRunComparison env st) = []
     \<and> comparisonReport (handleRunComparison env st) = Some (concat chunks)
     \<and> isComparing (handleRunComparison env st) = False"
  using assms by (simp add: handleRunComparison_def consumeComparison_Some)

text \<open>
  C6, witness: two items selected, a stream that fails after two chunks.
\<close>

theorem comparison_failure_keeps_streamed_text_witness:
  "2 \<le> length (selectedHistoryIds twoSelected)
   \<and> generateComparisonBrief (sampleEnv [] 39) (reportsToCompare twoSelected)
       = Stream [''Both '', ''agree''] (Some (Error ''quota''))
   \<and> error (handleRunComparison (sampleEnv [] 39) twoSelected) = Some ''Comparison failed: quota''
   \<and> selectedHistoryIds (handleRunComparison (sampleEnv [] 39) twoSelected) = []
   \<and> comparisonReport (handleRunComparison (sampleEnv [] 39) twoSelected) = Some ''Both agree''"
proof -
  have l: "2 \<le> length (selectedHistoryIds twoSelected)"
    by (simp add: twoSelected_def)
  have g: "generateComparisonBrief (sampleEnv [] 39) (reportsToCompare twoSelected)
       = Stream [''Both '', ''agree''] (Some (Error ''quota''))"
    by (simp add: sampleEnv_def)
  have f: "getFriendlyErrorMessage (sampleEnv [] 39) (Error ''quota'') = ''quota''"
    by (simp add: sampleEnv_def)
  from comparison_failure_keeps_streamed_text[OF l g] l g f show ?thesis
    by simp
qed

section \<open>The follow-up chat session\<close>

lemma sendBegin_guarded: "sendGuard rendered \<Longrightarrow> sendBegin rendered message cur = cur"
  by (simp add: sendBegin_def)

lemma sendFinish_guarded: "sendGuard rendered \<Longrightarrow> sendFinish env rendered message cur = cur"
  by (auto simp: sendFinish_def sendGuard_def split: option.splits)

lemma sendBegin_sets_guard: "sendGuard (sendBegin st message st)"
  by (simp add: sendBegin_def sendGuard_def)

lemma handleSendChatMessage_steps:
  "handleSendChatMessage env message st = sendFinish env st message (sendBegin st message st)"
  by (simp add: handleSendChatMessage_def sendFinish_def sendBegin_def sendGuard_def Let_def
      split: option.splits sum.splits chunkStream.splits)

text \<open>
  C10, as amended. A send issued by the handler of a render in which there is no chat
  session, or in which the loading flag is set, is a no-op: the application state, with the
  transcript and the messages relayed to the session, is as before, and no stream is started.
  A send that passes the guard sets the loading flag and appends the user's message before it
  awaits the stream; so a send issued from the render that follows, while the earlier one has
  not resolved, is a no-op. The handler is these two steps, one after the other.
\<close>

theorem send_is_noop_once_guard_is_seen:
  "(sendGuard rendered \<longrightarrow>
      sendBegin rendered message cur = cur \<and> sendFinish env rendered message cur = cur)
   \<and> (sendGuard st \<longrightarrow> handleSendChatMessage env message st = st)
   \<and> (\<not> sendGuard st \<longrightarrow>
        isChatLoading (sendBegin st message st)
        \<and> chatMessages (sendBegin st message st)
            = chatMessages st @ [\<lparr>role = User, content = message\<rparr>])
   \<and> sendBegin (sendBegin st message st) message' cur = cur
   \<and> sendFinish env (sendBegin st message st) message' cur = cur
   \<and> handleSendChatMessage env message st = sendFinish env st message (sendBegin st message st)"
  using sendBegin_sets_guard[of st message]
  by (simp add: sendBegin_guarded sendFinish_guarded handleSendChatMessage_steps)
    (simp add: sendBegin_def)

text \<open>
  C10, witness: a send without a session, and a second send issued from the render that
  follows the first.
\<close>

theorem send_is_noop_once_guard_is_seen_witness:
  "sendGuard initialApp
   \<and> sendBegin initialApp ''What is the risk?'' initialApp = initialApp
   \<and> handleSendChatMessage (sampleEnv [] 39) ''What is the risk?'' initialApp = initialApp
   \<and> \<not> sendGuard readyChat
   \<and> isChatLoading (sendBegin readyChat ''What is the risk?'' readyChat)
   \<and> chatMessages (sendBegin (sendBegin readyChat ''What is the risk?'' readyChat) ''And now?''
        (sendBegin readyChat ''What is the risk?'' readyChat))
       = [chatGreeting, \<lparr>role = User, content = ''What is the risk?''\<rparr>]"
proof -
  have a: "sendGuard initialApp"
    by (simp add: sendGuard_def initialApp_def)
  have b: "\<not> sendGuard readyChat"
    by code_simp
  have c: "chatMessages readyChat = [chatGreeting]"
    by code_simp
  from send_is_noop_once_guard_is_seen[of initialApp "''What is the risk?''" initialApp
      "sampleEnv [] 39" initialApp "''And now?''"]
    send_is_noop_once_guard_is_seen[of readyChat "''What is the risk?''"
      "sendBegin readyChat ''What is the risk?'' readyChat" "sampleEnv [] 39" readyChat "''And now?''"]
    a b c
  show ?thesis
    by simp
qed

text \<open>
  C10, counterexample to the claim as stated: after a first send has set the loading flag
  and has not resolved, a second send issued by the handler of the same render, which still
  reads the flag as unset, appends its message to the transcript and starts a second stream.
\<close>

theorem second_send_of_same_render_is_not_noop:
  "isChatLoading (sendBegin readyChat ''What is the risk?'' readyChat)
   \<and> chatMessages (sendBegin readyChat ''And now?''
        (sendBegin readyChat ''What is the risk?'' readyChat))
       = [chatGreeting, \<lparr>role = User, content = ''What is the risk?''\<rparr>,
          \<lparr>role = User, content = ''And now?''\<rparr>]
   \<and> chatSession (sendBegin readyChat ''And now?''
        (sendBegin readyChat ''What is the risk?'' readyChat))
       = Some \<lparr>grounding = ''Report A'', sentMessages = [''What is the risk?'', ''And now?'']\<rparr>"
  by code_simp

lemma setLastModelContent_snoc [simp]:
  "setLastModelContent c (ms @ [\<lparr>role = Model, content = d\<rparr>]) = ms @ [\<lparr>role = Model, content = c\<rparr>]"
  by (simp add: setLastModelContent_def)

lemma streamReply_snoc:
  "streamReply chunks acc (ms @ [\<lparr>role = Model, content = acc\<rparr>])
     = ms @ [\<lparr>role = Model, content = acc @ concat chunks\<rparr>]"
  by (induction chunks arbitrary: acc) simp_all

lemma handleRunPipeline_chat:
  assumes "\<not> noInput inp" and "fst (runPipeline env inp) = None"
  shows "chatSession (handleRunPipeline env inp st)
           = Some (startFollowUpChat (fullReport (snd (runPipeline env inp))))"
    and "chatMessages (handleRunPipeline env inp st) = [chatGreeting]"
    and "isChatLoading (handleRunPipeline env inp st) = False"
  using assms
  by (simp_all add: handleRunPipeline_def Let_def resetAnalysisState_def)

text \<open>
  C8. A successful run starts the chat with a transcript of one entry, the model's
  greeting. After one send whose stream ends normally the transcript has exactly three
  entries, in order: the greeting, the user's message, and one model entry holding the
  chunks of the reply concatenated.
\<close>

theorem first_send_gives_three_entries:
  assumes "\<not> noInput inp" and "fst (runPipeline env inp) = None"
    and "sendMessageStream env' (startFollowUpChat (fullReport (snd (runPipeline env inp)))) message
           = Inr (Stream chunks None)"
  shows "chatMessages (handleRunPipeline env inp st) = [chatGreeting]
     \<and> role chatGreeting = Model
     \<and> chatMessages (handleSendChatMessage env' message (handleRunPipeline env inp st))
         = [chatGreeting, \<lparr>role = User, content = message\<rparr>,
            \<lparr>role = Model, content = concat chunks\<rparr>]"
proof -
  note c = handleRunPipeline_chat[OF assms(1,2), of st]
  have "streamReply chunks [] ([chatGreeting, \<lparr>role = User, content = message\<rparr>]
            @ [\<lparr>role = Model, content = []\<rparr>])
      = [chatGreeting, \<lparr>role = User, content = message\<rparr>] @ [\<lparr>role = Model, content = [] @ concat chunks\<rparr>]"
    by (rule streamReply_snoc)
  then show ?thesis
    using c assms(3) by (simp add: handleSendChatMessage_def Let_def chatGreeting_def)
qed

text \<open>
  C8, witness: a raw-text submission, then one question answered in two chunks.
\<close>

theorem first_send_gives_three_entries_witness:
  "\<not> noInput textSubmission \<and> fst (runPipeline (sampleEnv [] 39) textSubmission) = None
   \<and> length (chatMessages (handleSendChatMessage (sampleEnv [] 39) ''What is the risk?''
        (handleRunPipeline (sampleEnv [] 39) textSubmission initialApp))) = 3
   \<and> chatMessages (handleSendChatMessage (sampleEnv [] 39) ''What is the risk?''
        (handleRunPipeline (sampleEnv [] 39) textSubmission initialApp))
       = [chatGreeting, \<lparr>role = User, content = ''What is the risk?''\<rparr>,
          \<lparr>role = Model, content = ''Low risk''\<rparr>]"
proof -
  have h: "\<not> noInput textSubmission"
    by code_simp
  have r: "fst (runPipeline (sampleEnv [] 39) textSubmission) = None"
    by code_simp
  have s: "sendMessageStream (sampleEnv [] 39)
      (startFollowUpChat (fullReport (snd (runPipeline (sampleEnv [] 39) textSubmission))))
      ''What is the risk?'' = Inr (Stream [''Low '', ''risk''] None)"
    by (simp add: sampleEnv_def)
  from first_send_gives_three_entries[OF h r s, of initialApp] h r show ?thesis
    by simp
qed

section \<open>The history of completed runs\<close>

lemma handleRunPipeline_history:
  "history (handleRunPipeline env inp st)
     = (case producedItem (env, inp) of None \<Rightarrow> history st | Some item \<Rightarrow> item # history st)"
  by (simp add: handleRunPipeline_def producedItem_def Let_def resetAnalysisState_def
      split: option.splits)

lemma runAll_history:
  "history (runAll rs st) = rev (List.map_filter producedItem rs) @ history st"
proof (induction rs arbitrary: st)
  case Nil
  then show ?case by (simp add: List.map_filter_simps)
next
  case (Cons r rs)
  obtain env inp where r: "r = (env, inp)"
    by (cases r)
  show ?case
    by (simp add: Cons.IH r handleRunPipeline_history List.map_filter_simps split: option.splits)
qed

lemma map_filter_all:
  "(\<forall>r\<in>set rs. f r \<noteq> None) \<Longrightarrow> map Some (List.map_filter f rs) = map f rs"
  by (induction rs) (auto simp: List.map_filter_simps split: option.splits)

text \<open>
  C7. A run that succeeds puts its history item in front of the history, and any other
  leaves the history as it is. So after a sequence of submissions the history is the items
  produced, newest first, followed by what was there before; if all N runs succeed, all N
  items are there. Clearing the history, once confirmed, leaves it empty.
\<close>

theorem history_is_newest_first:
  "history (handleRunPipeline env inp st)
     = (case producedItem (env, inp) of None \<Rightarrow> history st | Some item \<Rightarrow> item # history st)
   \<and> history (runAll rs st) = rev (List.map_filter producedItem rs) @ history st
   \<and> ((\<forall>r\<in>set rs. producedItem r \<noteq> None) \<longrightarrow>
         map Some (List.map_filter producedItem rs) = map producedItem rs)
   \<and> history (handleClearHistory True st) = []"
  using handleRunPipeline_history runAll_history map_filter_all[of rs producedItem]
  by (simp add: handleClearHistory_def resetAnalysisState_def)

text \<open>
  C7, witness: after a URL run and then a raw-text run, the raw-text item comes first.
\<close>

theorem history_is_newest_first_witness:
  "producedItem (sampleEnv ''abc'' 39, urlSubmission) \<noteq> None
   \<and> producedItem (sampleEnv [] 39, textSubmission) \<noteq> None
   \<and> map item_url (history (runAll twoRuns initialApp))
       = [''Direct Text Input'', ''https://example.com/a'']"
proof -
  have a: "producedItem (sampleEnv ''abc'' 39, urlSubmission) \<noteq> None"
    by code_simp
  have b: "producedItem (sampleEnv [] 39, textSubmission) \<noteq> None"
    by code_simp
  have c: "map item_url (rev (List.map_filter producedItem twoRuns))
      = [''Direct Text Input'', ''https://example.com/a'']"
    by code_simp
  have "history (runAll twoRuns initialApp) = rev (List.map_filter producedItem twoRuns) @ history initialApp"
    using history_is_newest_first[of _ _ initialApp twoRuns] by blast
  with a b c show ?thesis
    by (simp add: initialApp_def)
qed

end
